theory Spec2Isabelle
  imports Complex_Main "HOL-Library.Multiset"
begin

section \<open>The job worker of upr-os-worker: dispatch, history, batch fan-out\<close>

text \<open>
  The development follows \<^verbatim>\<open>processor.js\<close> (the class \<^verbatim>\<open>JobProcessor\<close> and the
  module-level \<^verbatim>\<open>jobHistory\<close> map). Everything the JavaScript does beyond returning a
  value is explicit here: the history map is a value that every operation takes and
  returns, a \<^verbatim>\<open>throw\<close> is the left injection of a sum, the wall clock, the random
  number generator and the downstream HTTP service are oracles of an environment, and the
  writes that other in-flight \<^verbatim>\<open>process()\<close> calls make while one call is suspended at an
  \<^verbatim>\<open>await\<close> are a parameter of that call.
\<close>

subsection \<open>JavaScript values\<close>

text \<open>
  Payloads, downstream responses and handler results are JSON-like values. Numbers are
  opaque to the program except for their truthiness and for the counts it produces itself,
  so a rational stands for the number. A string is its sequence of characters. An object
  is its list of own properties in creation order, each key occurring once. \<open>JBoxed\<close> is
  the wrapper object that \<^verbatim>\<open>Object(v)\<close> makes of a primitive.
\<close>

datatype jsval =
    JUndefined
  | JNull
  | JBool bool
  | JNum rat
  | JStr string
  | JArr "jsval list"
  | JObj "(string \<times> jsval) list"
  | JBoxed jsval

text \<open>Errors are values; \<open>message\<close> is the \<^verbatim>\<open>.message\<close> property the dispatcher records.\<close>

datatype js_error =
    Error string
  | TypeError string
  | AxiosError string

fun message :: "js_error \<Rightarrow> string" where
  "message (Error m) = m"
| "message (TypeError m) = m"
| "message (AxiosError m) = m"

text \<open>\<^verbatim>\<open>!v\<close>: the falsy values are undefined, null, false, 0 and the empty string.\<close>

fun falsy :: "jsval \<Rightarrow> bool" where
  "falsy JUndefined = True"
| "falsy JNull = True"
| "falsy (JBool b) = (\<not> b)"
| "falsy (JNum n) = (n = 0)"
| "falsy (JStr s) = (s = [])"
| "falsy (JArr xs) = False"
| "falsy (JObj kvs) = False"
| "falsy (JBoxed v) = False"

subsection \<open>The history map\<close>

text \<open>
  \<^verbatim>\<open>const jobHistory = new Map()\<close>: a JavaScript \<^verbatim>\<open>Map\<close> iterates in insertion order;
  \<^verbatim>\<open>set\<close> on a key that is present replaces the value where the key stands, \<^verbatim>\<open>set\<close> on
  a new key appends, \<^verbatim>\<open>delete\<close> removes the entry. The model is the list of entries in
  that order.
\<close>

type_synonym ('k, 'v) js_map = "('k \<times> 'v) list"

fun Map_set :: "('k, 'v) js_map \<Rightarrow> 'k \<Rightarrow> 'v \<Rightarrow> ('k, 'v) js_map" where
  "Map_set [] k v = [(k, v)]"
| "Map_set ((k', v') # es) k v =
     (if k' = k then (k, v) # es else (k', v') # Map_set es k v)"

fun Map_delete :: "('k, 'v) js_map \<Rightarrow> 'k \<Rightarrow> ('k, 'v) js_map" where
  "Map_delete [] k = []"
| "Map_delete ((k', v') # es) k =
     (if k' = k then es else (k', v') # Map_delete es k)"

fun Map_get :: "('k, 'v) js_map \<Rightarrow> 'k \<Rightarrow> 'v option" where
  "Map_get [] k = None"
| "Map_get ((k', v') # es) k = (if k' = k then Some v' else Map_get es k)"

definition Map_size :: "('k, 'v) js_map \<Rightarrow> nat" where
  "Map_size m = length m"

definition Map_keys :: "('k, 'v) js_map \<Rightarrow> 'k list" where
  "Map_keys m = map fst m"

definition Map_values :: "('k, 'v) js_map \<Rightarrow> 'v list" where
  "Map_values m = map snd m"

subsection \<open>Job records\<close>

text \<open>
  The objects stored in the history. A property that an object literal does not have, or
  has with the value \<^verbatim>\<open>undefined\<close>, is \<open>None\<close>. A timestamp is the instant in
  milliseconds since the epoch: \<^verbatim>\<open>new Date().toISOString()\<close> renders it and
  \<^verbatim>\<open>new Date(s)\<close> in \<^verbatim>\<open>getRecentJobs\<close> reads the same instant back. The property
  \<^verbatim>\<open>id\<close> is the field \<open>id_job\<close>, \<^verbatim>\<open>type\<close> is \<open>type_job\<close> and \<^verbatim>\<open>payload\<close> is
  \<open>payload_job\<close>.
\<close>

record job_record =
  id_job :: string
  type_job :: string
  status :: string
  startedAt :: "int option"
  completedAt :: "int option"
  failedAt :: "int option"
  duration :: "int option"
  result :: "jsval option"
  error :: "string option"
  payload_job :: "jsval option"

type_synonym history = "(string, job_record) js_map"

definition MAX_HISTORY :: nat where
  "MAX_HISTORY = 100"

text \<open>
  \<^verbatim>\<open>recordJob(jobId, data)\<close>: set, then drop the first key of the map when the size is
  above \<open>MAX_HISTORY\<close>. \<^verbatim>\<open>keys().next().value\<close> of a map that is not empty is its first key;
  the size test fails on an empty map, so the first key exists where it is read.
\<close>

definition recordJob :: "history \<Rightarrow> string \<Rightarrow> job_record \<Rightarrow> history" where
  "recordJob h jobId data =
     (let h1 = Map_set h jobId data in
      if Map_size h1 > MAX_HISTORY
      then (case Map_keys h1 of
              [] \<Rightarrow> h1
            | oldestKey # _ \<Rightarrow> Map_delete h1 oldestKey)
      else h1)"

text \<open>\<^verbatim>\<open>getStatus(jobId)\<close>: stored records are objects, hence truthy.\<close>

definition getStatus :: "history \<Rightarrow> string \<Rightarrow> js_error + job_record" where
  "getStatus h jobId =
     (case Map_get h jobId of
        None \<Rightarrow> Inl (Error ''Job not found'')
      | Some job \<Rightarrow> Inr job)"

text \<open>
  \<^verbatim>\<open>getRecentJobs(limit)\<close>. The comparator is
  \<^verbatim>\<open>new Date(b.startedAt) - new Date(a.startedAt)\<close>; a missing \<^verbatim>\<open>startedAt\<close> makes an
  invalid date and the difference NaN, here \<open>None\<close>. \<^verbatim>\<open>Array.prototype.sort\<close> reads NaN
  as 0 and is stable: \<open>sort_js\<close> is the stable insertion sort, which is what every
  conforming sort returns when the comparator is a consistent order, that is, when no
  record lacks \<^verbatim>\<open>startedAt\<close>. When one does, the order is the engine's choice: the
  insertion sort is one conforming choice, and an engine may return another (V8, which
  inserts from the front and merges runs, does so on some such arrays). On the one such
  history that a statement below is about, \<open>evicted_history\<close>, V8 returns the order
  that \<open>sort_js\<close> returns. \<^verbatim>\<open>slice(0, limit)\<close> counts a negative \<open>limit\<close>
  from the end of the array; \<open>limit\<close> is the integer that \<^verbatim>\<open>slice\<close> makes of its
  argument, and the default 10 of the parameter is the caller's to pass.
\<close>

definition compare_startedAt :: "job_record \<Rightarrow> job_record \<Rightarrow> int option" where
  "compare_startedAt a b =
     (case (startedAt b, startedAt a) of
        (Some tb, Some ta) \<Rightarrow> Some (tb - ta)
      | _ \<Rightarrow> None)"

definition SortCompare :: "('a \<Rightarrow> 'a \<Rightarrow> int option) \<Rightarrow> 'a \<Rightarrow> 'a \<Rightarrow> int" where
  "SortCompare cmp x y = (case cmp x y of None \<Rightarrow> 0 | Some v \<Rightarrow> v)"

fun insert_js :: "('a \<Rightarrow> 'a \<Rightarrow> int option) \<Rightarrow> 'a \<Rightarrow> 'a list \<Rightarrow> 'a list" where
  "insert_js cmp x [] = [x]"
| "insert_js cmp x (y # ys) =
     (if SortCompare cmp x y \<le> 0 then x # y # ys else y # insert_js cmp x ys)"

fun sort_js :: "('a \<Rightarrow> 'a \<Rightarrow> int option) \<Rightarrow> 'a list \<Rightarrow> 'a list" where
  "sort_js cmp [] = []"
| "sort_js cmp (x # xs) = insert_js cmp x (sort_js cmp xs)"

definition slice0 :: "'a list \<Rightarrow> int \<Rightarrow> 'a list" where
  "slice0 xs end =
     (if end < 0 then take (nat (max (int (length xs) + end) 0)) xs
      else take (nat end) xs)"

definition getRecentJobs :: "history \<Rightarrow> int \<Rightarrow> job_record list" where
  "getRecentJobs h limit = slice0 (sort_js compare_startedAt (Map_values h)) limit"

subsection \<open>The environment\<close>

text \<open>
  What the program reads from outside itself. \<open>timeSrc n\<close> is the \<open>n\<close>-th reading of the
  wall clock (\<^verbatim>\<open>Date.now()\<close> and \<^verbatim>\<open>new Date()\<close>), \<open>randomSrc n\<close> the \<open>n\<close>-th value of
  \<^verbatim>\<open>Math.random()\<close>, a number in the interval from 0 to 1. What the program computes
  from it is floating-point arithmetic and the engine's: \<open>floorTimes r k\<close> is
  \<^verbatim>\<open>Math.floor(r * k)\<close>, \<open>toFixed2Times r k\<close> is \<^verbatim>\<open>(r * k).toFixed(2)\<close> and
  \<open>toString36 r\<close> is \<^verbatim>\<open>r.toString(36)\<close>.
  \<open>respond sent req\<close> is what \<^verbatim>\<open>axios.post\<close> does with the request \<open>req\<close> after the
  requests \<open>sent\<close>: \<open>Inr data\<close> when it resolves with a response whose \<^verbatim>\<open>data\<close> is
  \<open>data\<close>, \<open>Inl m\<close> when it rejects with an error of message \<open>m\<close>. The rendering
  \<open>toISOString\<close> and the text of the engine's own \<^verbatim>\<open>TypeError\<close>s are the engine's
  too; \<open>NullishThis f\<close> is the fault of the built-in function \<open>f\<close> called with
  \<^verbatim>\<open>this\<close> undefined.
  The readings made by other in-flight calls need no place of their own: the oracles are
  arbitrary, so any sequence of readings of one call is already covered.
\<close>

type_synonym request = "string \<times> jsval"

datatype type_fault =
    CannotDestructure string jsval
  | NotIterable
  | NotCallable
  | NoPrimitiveValue
  | NullishThis string

record env =
  timeSrc :: "nat \<Rightarrow> int"
  randomSrc :: "nat \<Rightarrow> rat"
  respond :: "request list \<Rightarrow> request \<Rightarrow> string + jsval"
  toString36 :: "rat \<Rightarrow> string"
  floorTimes :: "rat \<Rightarrow> int \<Rightarrow> int"
  toFixed2Times :: "rat \<Rightarrow> int \<Rightarrow> string"
  toISOString :: "int \<Rightarrow> string"
  engineMessage :: "type_fault \<Rightarrow> string"
  UPR_OS_BASE_URL :: "string option"

record world =
  jobHistory :: history
  clockReads :: nat
  randomDraws :: nat
  requests :: "request list"

definition Date_now :: "env \<Rightarrow> world \<Rightarrow> int \<times> world" where
  "Date_now e w = (timeSrc e (clockReads w), w\<lparr>clockReads := Suc (clockReads w)\<rparr>)"

definition Math_random :: "env \<Rightarrow> world \<Rightarrow> rat \<times> world" where
  "Math_random e w = (randomSrc e (randomDraws w), w\<lparr>randomDraws := Suc (randomDraws w)\<rparr>)"

definition axios_post :: "env \<Rightarrow> world \<Rightarrow> string \<Rightarrow> jsval \<Rightarrow> (js_error + jsval) \<times> world" where
  "axios_post e w url body =
     ((case respond e (requests w) (url, body) of
         Inl m \<Rightarrow> Inl (AxiosError m)
       | Inr data \<Rightarrow> Inr data),
      w\<lparr>requests := requests w @ [(url, body)]\<rparr>)"

text \<open>\<^verbatim>\<open>process.env.UPR_OS_BASE_URL || '...'\<close>: an unset or empty variable gives the default.\<close>

definition OS_BASE_URL :: "env \<Rightarrow> string" where
  "OS_BASE_URL e =
     (case UPR_OS_BASE_URL e of
        None \<Rightarrow> ''https://upr-os-service-191599223867.us-central1.run.app''
      | Some u \<Rightarrow>
          if u = [] then ''https://upr-os-service-191599223867.us-central1.run.app'' else u)"

text \<open>Decimal rendering of an integer, as a template literal renders \<^verbatim>\<open>Date.now()\<close>.\<close>

definition digit_char :: "nat \<Rightarrow> char" where
  "digit_char d = ''0123456789'' ! d"

fun dec_nat :: "nat \<Rightarrow> string" where
  "dec_nat n = (if n < 10 then [digit_char n] else dec_nat (n div 10) @ [digit_char (n mod 10)])"

definition dec_int :: "int \<Rightarrow> string" where
  "dec_int i = (if i < 0 then CHR ''-'' # dec_nat (nat (- i)) else dec_nat (nat i))"

subsection \<open>Reading payloads\<close>

definition nullish :: "jsval \<Rightarrow> bool" where
  "nullish v = (v = JUndefined \<or> v = JNull)"

text \<open>
  \<open>get_prop v k\<close> is \<^verbatim>\<open>v[k]\<close> for a value that is not nullish and for the property names
  the handlers read (\<^verbatim>\<open>leadIds\<close>, \<^verbatim>\<open>tenantId\<close>, \<^verbatim>\<open>score\<close> and so on), none of which a
  prototype defines: an object gives its own property, anything else \<^verbatim>\<open>undefined\<close>.
  \<open>get_length\<close> is \<^verbatim>\<open>v.length\<close>, which arrays and strings define.
\<close>

fun get_prop :: "jsval \<Rightarrow> string \<Rightarrow> jsval" where
  "get_prop (JObj kvs) k = (case map_of kvs k of None \<Rightarrow> JUndefined | Some v \<Rightarrow> v)"
| "get_prop (JBoxed v) k = get_prop v k"
| "get_prop v k = JUndefined"

fun get_length :: "jsval \<Rightarrow> jsval" where
  "get_length (JArr xs) = JNum (of_nat (length xs))"
| "get_length (JStr s) = JNum (of_nat (length s))"
| "get_length (JBoxed v) = get_length v"
| "get_length v = get_prop v ''length''"

text \<open>\<^verbatim>\<open>v?.k\<close> and \<^verbatim>\<open>v?.length\<close>: \<^verbatim>\<open>undefined\<close> on a nullish value.\<close>

definition opt_prop :: "jsval \<Rightarrow> string \<Rightarrow> jsval" where
  "opt_prop v k = (if nullish v then JUndefined else get_prop v k)"

definition opt_length :: "jsval \<Rightarrow> jsval" where
  "opt_length v = (if nullish v then JUndefined else get_length v)"

text \<open>\<^verbatim>\<open>a || b\<close>.\<close>

definition js_or :: "jsval \<Rightarrow> jsval \<Rightarrow> jsval" where
  "js_or a b = (if falsy a then b else a)"

text \<open>
  \<^verbatim>\<open>const { first, ... } = payload\<close> throws a \<^verbatim>\<open>TypeError\<close> on \<^verbatim>\<open>undefined\<close> and
  \<^verbatim>\<open>null\<close>.
\<close>

definition destructure :: "env \<Rightarrow> jsval \<Rightarrow> string \<Rightarrow> js_error option" where
  "destructure e v first =
     (if nullish v then Some (TypeError (engineMessage e (CannotDestructure first v))) else None)"

text \<open>
  A template literal converts each value to a string. The conversion of an object calls
  its \<^verbatim>\<open>toString\<close>; an object parsed from JSON that has an own property of that name has
  no callable one, and \<^verbatim>\<open>valueOf\<close> returns the object, so the conversion throws. An array
  joins the conversions of its elements, skipping \<^verbatim>\<open>undefined\<close> and \<^verbatim>\<open>null\<close>.
\<close>

fun ToString_throws :: "jsval \<Rightarrow> bool" where
  "ToString_throws (JObj kvs) = (''toString'' \<in> set (map fst kvs))"
| "ToString_throws (JArr xs) = list_ex ToString_throws xs"
| "ToString_throws v = False"

definition template :: "env \<Rightarrow> jsval \<Rightarrow> js_error option" where
  "template e v =
     (if ToString_throws v then Some (TypeError (engineMessage e NoPrimitiveValue)) else None)"

text \<open>
  \<^verbatim>\<open>for (const x of v)\<close>: an array gives its elements, a string its characters; a number,
  a boolean or a plain object is not iterable.
\<close>

fun iterate :: "jsval \<Rightarrow> jsval list option" where
  "iterate (JArr xs) = Some xs"
| "iterate (JStr s) = Some (map (\<lambda>c. JStr [c]) s)"
| "iterate (JBoxed (JStr s)) = Some (map (\<lambda>c. JStr [c]) s)"
| "iterate v = None"

subsection \<open>The job handlers\<close>

text \<open>
  A handler takes the payload and the job id and returns its result or the error it
  throws, with the world after its effects. Console output is left out, except that the
  template literal of a log line converts its values to strings, which can throw.
\<close>

type_synonym outcome = "js_error + jsval"

text \<open>
  The loop of \<^verbatim>\<open>handleEnrichmentBatch\<close>: one request for each lead id; the
  \<^verbatim>\<open>try\<close>/\<^verbatim>\<open>catch\<close> inside the loop turns a rejected request into a failed entry.
\<close>

fun enrichment_loop :: "env \<Rightarrow> world \<Rightarrow> jsval \<Rightarrow> jsval list \<Rightarrow> jsval list \<Rightarrow> jsval list \<times> world" where
  "enrichment_loop e w tenantId [] results = (results, w)"
| "enrichment_loop e w tenantId (leadId # rest) results =
     (case axios_post e w (OS_BASE_URL e @ ''/api/os/enrich'')
             (JObj [(''leadId'', leadId), (''tenantId'', tenantId),
                    (''source'', JStr ''worker-batch'')]) of
        (Inr data, w') \<Rightarrow>
          enrichment_loop e w' tenantId rest
            (results @ [JObj [(''leadId'', leadId), (''status'', JStr ''enriched''),
                              (''data'', data)]])
      | (Inl err, w') \<Rightarrow>
          enrichment_loop e w' tenantId rest
            (results @ [JObj [(''leadId'', leadId), (''status'', JStr ''failed''),
                              (''error'', JStr (message err))]]))"

definition handleEnrichmentBatch :: "env \<Rightarrow> world \<Rightarrow> jsval \<Rightarrow> string \<Rightarrow> outcome \<times> world" where
  "handleEnrichmentBatch e w payload jobId =
     (case destructure e payload ''leadIds'' of
        Some err \<Rightarrow> (Inl err, w)
      | None \<Rightarrow>
          let leadIds = get_prop payload ''leadIds'';
              tenantId = get_prop payload ''tenantId''
          in (case template e (js_or (opt_length leadIds) (JNum 0)) of
                Some err \<Rightarrow> (Inl err, w)
              | None \<Rightarrow>
                  (case iterate (js_or leadIds (JArr [])) of
                     None \<Rightarrow> (Inl (TypeError (engineMessage e NotIterable)), w)
                   | Some items \<Rightarrow>
                       let (results, w') = enrichment_loop e w tenantId items []
                       in (Inr (JObj [(''processed'', JNum (of_nat (length results))),
                                      (''results'', JArr results)]), w'))))"

definition handleEnrichmentSingle :: "env \<Rightarrow> world \<Rightarrow> jsval \<Rightarrow> string \<Rightarrow> outcome \<times> world" where
  "handleEnrichmentSingle e w payload jobId =
     (case destructure e payload ''leadId'' of
        Some err \<Rightarrow> (Inl err, w)
      | None \<Rightarrow>
          let leadId = get_prop payload ''leadId'';
              tenantId = get_prop payload ''tenantId''
          in (case template e leadId of
                Some err \<Rightarrow> (Inl err, w)
              | None \<Rightarrow>
                  axios_post e w (OS_BASE_URL e @ ''/api/os/enrich'')
                    (JObj [(''leadId'', leadId), (''tenantId'', tenantId),
                           (''source'', JStr ''worker-single'')])))"

definition handleSignalAggregation :: "env \<Rightarrow> world \<Rightarrow> jsval \<Rightarrow> string \<Rightarrow> outcome \<times> world" where
  "handleSignalAggregation e w payload jobId =
     (case destructure e payload ''tenantId'' of
        Some err \<Rightarrow> (Inl err, w)
      | None \<Rightarrow>
          let tenantId = get_prop payload ''tenantId''
          in (case template e tenantId of
                Some err \<Rightarrow> (Inl err, w)
              | None \<Rightarrow>
                  let (t, w1) = Date_now e w;
                      (r, w2) = Math_random e w1
                  in (Inr (JObj [(''tenantId'', tenantId),
                                 (''aggregatedAt'', JStr (toISOString e t)),
                                 (''signalsProcessed'', JNum (of_int (floorTimes e r 1000) + 100)),
                                 (''categories'',
                                    JArr [JStr ''hiring'', JStr ''funding'',
                                          JStr ''expansion'', JStr ''leadership''])]), w2)))"

definition handleScheduledPipeline :: "env \<Rightarrow> world \<Rightarrow> jsval \<Rightarrow> string \<Rightarrow> outcome \<times> world" where
  "handleScheduledPipeline e w payload jobId =
     (case destructure e payload ''pipelineId'' of
        Some err \<Rightarrow> (Inl err, w)
      | None \<Rightarrow>
          let pipelineId = get_prop payload ''pipelineId'';
              tenantId = get_prop payload ''tenantId'';
              config = get_prop payload ''config''
          in (case template e pipelineId of
                Some err \<Rightarrow> (Inl err, w)
              | None \<Rightarrow>
                  axios_post e w (OS_BASE_URL e @ ''/api/os/pipeline'')
                    (JObj [(''pipelineId'', pipelineId), (''tenantId'', tenantId),
                           (''config'', config), (''source'', JStr ''scheduled-worker'')])))"

text \<open>The loop of \<^verbatim>\<open>handleScoringBatch\<close>; \<^verbatim>\<open>response.data?.score\<close> is the score.\<close>

fun scoring_loop :: "env \<Rightarrow> world \<Rightarrow> jsval \<Rightarrow> jsval \<Rightarrow> jsval list \<Rightarrow> jsval list \<Rightarrow> jsval list \<times> world" where
  "scoring_loop e w tenantId vertical [] results = (results, w)"
| "scoring_loop e w tenantId vertical (leadId # rest) results =
     (case axios_post e w (OS_BASE_URL e @ ''/api/os/score'')
             (JObj [(''leadId'', leadId), (''tenantId'', tenantId),
                    (''vertical'', vertical), (''source'', JStr ''worker-batch'')]) of
        (Inr data, w') \<Rightarrow>
          scoring_loop e w' tenantId vertical rest
            (results @ [JObj [(''leadId'', leadId), (''status'', JStr ''scored''),
                              (''score'', opt_prop data ''score'')]])
      | (Inl err, w') \<Rightarrow>
          scoring_loop e w' tenantId vertical rest
            (results @ [JObj [(''leadId'', leadId), (''status'', JStr ''failed''),
                              (''error'', JStr (message err))]]))"

definition handleScoringBatch :: "env \<Rightarrow> world \<Rightarrow> jsval \<Rightarrow> string \<Rightarrow> outcome \<times> world" where
  "handleScoringBatch e w payload jobId =
     (case destructure e payload ''leadIds'' of
        Some err \<Rightarrow> (Inl err, w)
      | None \<Rightarrow>
          let leadIds = get_prop payload ''leadIds'';
              tenantId = get_prop payload ''tenantId'';
              vertical = get_prop payload ''vertical''
          in (case template e (js_or (opt_length leadIds) (JNum 0)) of
                Some err \<Rightarrow> (Inl err, w)
              | None \<Rightarrow>
                  (case iterate (js_or leadIds (JArr [])) of
                     None \<Rightarrow> (Inl (TypeError (engineMessage e NotIterable)), w)
                   | Some items \<Rightarrow>
                       let (results, w') = scoring_loop e w tenantId vertical items []
                       in (Inr (JObj [(''processed'', JNum (of_nat (length results))),
                                      (''results'', JArr results)]), w'))))"

definition handleOutreachCampaign :: "env \<Rightarrow> world \<Rightarrow> jsval \<Rightarrow> string \<Rightarrow> outcome \<times> world" where
  "handleOutreachCampaign e w payload jobId =
     (case destructure e payload ''campaignId'' of
        Some err \<Rightarrow> (Inl err, w)
      | None \<Rightarrow>
          let campaignId = get_prop payload ''campaignId'';
              recipients = get_prop payload ''recipients''
          in (case template e campaignId of
                Some err \<Rightarrow> (Inl err, w)
              | None \<Rightarrow>
                  let (t, w1) = Date_now e w
                  in (Inr (JObj [(''campaignId'', campaignId),
                                 (''recipientsProcessed'', js_or (opt_length recipients) (JNum 0)),
                                 (''status'', JStr ''queued''),
                                 (''estimatedDelivery'', JStr (toISOString e (t + 3600000)))]),
                      w1)))"

definition handleBackgroundDiscovery :: "env \<Rightarrow> world \<Rightarrow> jsval \<Rightarrow> string \<Rightarrow> outcome \<times> world" where
  "handleBackgroundDiscovery e w payload jobId =
     (case destructure e payload ''query'' of
        Some err \<Rightarrow> (Inl err, w)
      | None \<Rightarrow>
          let query = get_prop payload ''query'';
              tenantId = get_prop payload ''tenantId'';
              sources = get_prop payload ''sources''
          in (case template e query of
                Some err \<Rightarrow> (Inl err, w)
              | None \<Rightarrow>
                  axios_post e w (OS_BASE_URL e @ ''/api/os/discovery'')
                    (JObj [(''query'', query), (''tenantId'', tenantId),
                           (''sources'', sources), (''background'', JBool True)])))"

definition handleStaleCleanup :: "env \<Rightarrow> world \<Rightarrow> jsval \<Rightarrow> string \<Rightarrow> outcome \<times> world" where
  "handleStaleCleanup e w payload jobId =
     (case destructure e payload ''olderThan'' of
        Some err \<Rightarrow> (Inl err, w)
      | None \<Rightarrow>
          let olderThan = get_prop payload ''olderThan''
          in (case template e olderThan of
                Some err \<Rightarrow> (Inl err, w)
              | None \<Rightarrow>
                  let (t, w1) = Date_now e w;
                      (r1, w2) = Math_random e w1;
                      (r2, w3) = Math_random e w2
                  in (Inr (JObj [(''cleanedAt'', JStr (toISOString e t)),
                                 (''recordsRemoved'', JNum (of_int (floorTimes e r1 50))),
                                 (''storageReclaimed'', JStr (toFixed2Times e r2 100 @ ''MB''))]),
                      w3)))"

definition handleExportGeneration :: "env \<Rightarrow> world \<Rightarrow> jsval \<Rightarrow> string \<Rightarrow> outcome \<times> world" where
  "handleExportGeneration e w payload jobId =
     (case destructure e payload ''exportType'' of
        Some err \<Rightarrow> (Inl err, w)
      | None \<Rightarrow>
          let exportType = get_prop payload ''exportType''
          in (case template e exportType of
                Some err \<Rightarrow> (Inl err, w)
              | None \<Rightarrow>
                  let (t, w1) = Date_now e w;
                      (r, w2) = Math_random e w1
                  in (Inr (JObj [(''exportId'', JStr (''export_'' @ dec_int t)),
                                 (''type'', exportType),
                                 (''status'', JStr ''generating''),
                                 (''estimatedRows'', JNum (of_int (floorTimes e r 10000) + 100)),
                                 (''downloadUrl'', JNull)]), w2)))"

definition handleAnalyticsAggregation :: "env \<Rightarrow> world \<Rightarrow> jsval \<Rightarrow> string \<Rightarrow> outcome \<times> world" where
  "handleAnalyticsAggregation e w payload jobId =
     (case destructure e payload ''tenantId'' of
        Some err \<Rightarrow> (Inl err, w)
      | None \<Rightarrow>
          let period = get_prop payload ''period''
          in (case template e period of
                Some err \<Rightarrow> (Inl err, w)
              | None \<Rightarrow>
                  let (t, w1) = Date_now e w;
                      (r1, w2) = Math_random e w1;
                      (r2, w3) = Math_random e w2;
                      (r3, w4) = Math_random e w3;
                      (r4, w5) = Math_random e w4
                  in (Inr (JObj [(''period'', period),
                                 (''aggregatedAt'', JStr (toISOString e t)),
                                 (''metrics'',
                                    JObj [(''leadsDiscovered'', JNum (of_int (floorTimes e r1 500) + 50)),
                                          (''leadsEnriched'', JNum (of_int (floorTimes e r2 400) + 40)),
                                          (''leadsScored'', JNum (of_int (floorTimes e r3 300) + 30)),
                                          (''outreachSent'', JNum (of_int (floorTimes e r4 200) + 20))])]),
                      w5)))"

subsection \<open>The handler table\<close>

text \<open>
  \<^verbatim>\<open>this.handlers\<close> is an object literal with ten own properties, and
  \<^verbatim>\<open>this.handlers[job.type]\<close> is an ordinary property read: a name the literal does not
  have is looked up in \<^verbatim>\<open>Object.prototype\<close>, whose members are listed here. All of them
  are truthy, so \<^verbatim>\<open>!handler\<close> holds only for a name found in neither.
\<close>

datatype proto_member =
    P_constructor
  | P_defineGetter
  | P_defineSetter
  | P_hasOwnProperty
  | P_lookupGetter
  | P_lookupSetter
  | P_isPrototypeOf
  | P_propertyIsEnumerable
  | P_toString
  | P_valueOf
  | P_proto
  | P_toLocaleString

datatype handler =
    EnrichmentBatch
  | EnrichmentSingle
  | SignalAggregation
  | ScheduledPipeline
  | ScoringBatch
  | OutreachCampaign
  | BackgroundDiscovery
  | StaleCleanup
  | ExportGeneration
  | AnalyticsAggregation
  | Inherited proto_member

definition handlers :: "(string \<times> handler) list" where
  "handlers =
     [(''enrichment.batch'', EnrichmentBatch),
      (''enrichment.single'', EnrichmentSingle),
      (''signals.aggregate'', SignalAggregation),
      (''pipeline.scheduled'', ScheduledPipeline),
      (''scoring.batch'', ScoringBatch),
      (''outreach.campaign'', OutreachCampaign),
      (''discovery.background'', BackgroundDiscovery),
      (''cleanup.stale'', StaleCleanup),
      (''export.generate'', ExportGeneration),
      (''analytics.aggregate'', AnalyticsAggregation)]"

definition Object_prototype :: "(string \<times> proto_member) list" where
  "Object_prototype =
     [(''constructor'', P_constructor),
      (''__defineGetter__'', P_defineGetter),
      (''__defineSetter__'', P_defineSetter),
      (''hasOwnProperty'', P_hasOwnProperty),
      (''__lookupGetter__'', P_lookupGetter),
      (''__lookupSetter__'', P_lookupSetter),
      (''isPrototypeOf'', P_isPrototypeOf),
      (''propertyIsEnumerable'', P_propertyIsEnumerable),
      (''toString'', P_toString),
      (''valueOf'', P_valueOf),
      (''__proto__'', P_proto),
      (''toLocaleString'', P_toLocaleString)]"

definition handlers_get :: "string \<Rightarrow> handler option" where
  "handlers_get t =
     (case map_of handlers t of
        Some h \<Rightarrow> Some h
      | None \<Rightarrow> map_option Inherited (map_of Object_prototype t))"

text \<open>
  \<^verbatim>\<open>handler(job.payload, jobId)\<close> on an inherited member calls a built-in function with
  \<^verbatim>\<open>this\<close> undefined. \<^verbatim>\<open>Object(v)\<close> returns an object for every \<open>v\<close>;
  \<^verbatim>\<open>Object.prototype.toString\<close> returns \<^verbatim>\<open>"[object Undefined]"\<close>; \<^verbatim>\<open>isPrototypeOf\<close>
  returns \<^verbatim>\<open>false\<close> for an argument that is no object; the others convert \<^verbatim>\<open>this\<close> to an
  object and throw, \<^verbatim>\<open>hasOwnProperty\<close> and \<^verbatim>\<open>propertyIsEnumerable\<close> after converting
  their argument to a property key. The value of \<^verbatim>\<open>__proto__\<close> is no function.
\<close>

fun is_object :: "jsval \<Rightarrow> bool" where
  "is_object (JObj kvs) = True"
| "is_object (JArr xs) = True"
| "is_object (JBoxed v) = True"
| "is_object v = False"

fun call_inherited :: "env \<Rightarrow> proto_member \<Rightarrow> jsval \<Rightarrow> outcome" where
  "call_inherited e P_constructor v =
     Inr (if nullish v then JObj [] else if is_object v then v else JBoxed v)"
| "call_inherited e P_toString v = Inr (JStr ''[object Undefined]'')"
| "call_inherited e P_isPrototypeOf v =
     (if is_object v then Inl (TypeError (engineMessage e (NullishThis ''isPrototypeOf'')))
      else Inr (JBool False))"
| "call_inherited e P_hasOwnProperty v =
     (if ToString_throws v then Inl (TypeError (engineMessage e NoPrimitiveValue))
      else Inl (TypeError (engineMessage e (NullishThis ''hasOwnProperty''))))"
| "call_inherited e P_propertyIsEnumerable v =
     (if ToString_throws v then Inl (TypeError (engineMessage e NoPrimitiveValue))
      else Inl (TypeError (engineMessage e (NullishThis ''propertyIsEnumerable''))))"
| "call_inherited e P_proto v = Inl (TypeError (engineMessage e NotCallable))"
| "call_inherited e P_defineGetter v =
     Inl (TypeError (engineMessage e (NullishThis ''__defineGetter__'')))"
| "call_inherited e P_defineSetter v =
     Inl (TypeError (engineMessage e (NullishThis ''__defineSetter__'')))"
| "call_inherited e P_lookupGetter v =
     Inl (TypeError (engineMessage e (NullishThis ''__lookupGetter__'')))"
| "call_inherited e P_lookupSetter v =
     Inl (TypeError (engineMessage e (NullishThis ''__lookupSetter__'')))"
| "call_inherited e P_valueOf v =
     Inl (TypeError (engineMessage e (NullishThis ''valueOf'')))"
| "call_inherited e P_toLocaleString v =
     Inl (TypeError (engineMessage e (NullishThis ''toLocaleString'')))"

text \<open>
  The ten handlers are \<^verbatim>\<open>async\<close> functions: a call never throws, it returns a promise,
  and \<^verbatim>\<open>await\<close> suspends \<^verbatim>\<open>process\<close> until the promise settles. A built-in function
  throws at the call, before any \<^verbatim>\<open>await\<close>, or returns a value, which is then awaited.
\<close>

datatype invocation = Thrown js_error | Awaited outcome

fun invoke :: "env \<Rightarrow> world \<Rightarrow> handler \<Rightarrow> jsval \<Rightarrow> string \<Rightarrow> invocation \<times> world" where
  "invoke e w EnrichmentBatch p j = (let (r, w') = handleEnrichmentBatch e w p j in (Awaited r, w'))"
| "invoke e w EnrichmentSingle p j = (let (r, w') = handleEnrichmentSingle e w p j in (Awaited r, w'))"
| "invoke e w SignalAggregation p j = (let (r, w') = handleSignalAggregation e w p j in (Awaited r, w'))"
| "invoke e w ScheduledPipeline p j = (let (r, w') = handleScheduledPipeline e w p j in (Awaited r, w'))"
| "invoke e w ScoringBatch p j = (let (r, w') = handleScoringBatch e w p j in (Awaited r, w'))"
| "invoke e w OutreachCampaign p j = (let (r, w') = handleOutreachCampaign e w p j in (Awaited r, w'))"
| "invoke e w BackgroundDiscovery p j = (let (r, w') = handleBackgroundDiscovery e w p j in (Awaited r, w'))"
| "invoke e w StaleCleanup p j = (let (r, w') = handleStaleCleanup e w p j in (Awaited r, w'))"
| "invoke e w ExportGeneration p j = (let (r, w') = handleExportGeneration e w p j in (Awaited r, w'))"
| "invoke e w AnalyticsAggregation p j = (let (r, w') = handleAnalyticsAggregation e w p j in (Awaited r, w'))"
| "invoke e w (Inherited m) p j =
     (case call_inherited e m p of
        Inl err \<Rightarrow> (Thrown err, w)
      | Inr v \<Rightarrow> (Awaited (Inr v), w))"

subsection \<open>The dispatcher\<close>

text \<open>
  A job description. \<^verbatim>\<open>job.type\<close> is used as a property key and in a template literal,
  so it is the string that both conversions make of it. A \<^verbatim>\<open>job.type\<close> that has no such
  string (an object with an own property \<^verbatim>\<open>toString\<close>) is not a job of this model: the
  log line after the processing record, outside the \<^verbatim>\<open>try\<close>, throws on it and the
  record stays \<^verbatim>\<open>processing\<close>.
\<close>

record job =
  job_type :: string
  job_payload :: jsval

text \<open>What \<^verbatim>\<open>process\<close> returns: \<^verbatim>\<open>{ jobId, status, duration, result }\<close>.\<close>

record process_result =
  ret_jobId :: string
  ret_status :: string
  ret_duration :: int
  ret_result :: jsval

text \<open>
  Lines 30 to 40 of \<^verbatim>\<open>process\<close>: the id, the start time, the processing record.
  \<^verbatim>\<open>substr(2, 9)\<close> keeps nine characters from the third on.
\<close>

definition process_start :: "env \<Rightarrow> world \<Rightarrow> job \<Rightarrow> string \<times> int \<times> world" where
  "process_start e w jb =
     (let (t0, w1) = Date_now e w;
          (r0, w2) = Math_random e w1;
          jobId = ''job_'' @ dec_int t0 @ ''_'' @ take 9 (drop 2 (toString36 e r0));
          (startTime, w3) = Date_now e w2;
          (now, w4) = Date_now e w3
      in (jobId, startTime,
          w4\<lparr>jobHistory := recordJob (jobHistory w4) jobId
                \<lparr>id_job = jobId, type_job = job_type jb, status = ''processing'',
                 startedAt = Some now, completedAt = None, failedAt = None,
                 duration = None, result = None, error = None,
                 payload_job = Some (job_payload jb)\<rparr>\<rparr>))"

text \<open>\<^verbatim>\<open>jobHistory.get(jobId)?.startedAt\<close>.\<close>

definition stored_startedAt :: "history \<Rightarrow> string \<Rightarrow> int option" where
  "stored_startedAt h jobId = (case Map_get h jobId of None \<Rightarrow> None | Some r \<Rightarrow> startedAt r)"

text \<open>Lines 52 to 66: the handler's promise resolved with \<open>res\<close>.\<close>

definition process_completed ::
  "env \<Rightarrow> world \<Rightarrow> job \<Rightarrow> string \<Rightarrow> int \<Rightarrow> jsval \<Rightarrow> (js_error + process_result) \<times> world" where
  "process_completed e w jb jobId startTime res =
     (let (t1, w1) = Date_now e w;
          dur = t1 - startTime;
          started = stored_startedAt (jobHistory w1) jobId;
          (now, w2) = Date_now e w1
      in (Inr \<lparr>ret_jobId = jobId, ret_status = ''completed'', ret_duration = dur,
               ret_result = res\<rparr>,
          w2\<lparr>jobHistory := recordJob (jobHistory w2) jobId
                \<lparr>id_job = jobId, type_job = job_type jb, status = ''completed'',
                 startedAt = started, completedAt = Some now, failedAt = None,
                 duration = Some dur, result = Some res, error = None,
                 payload_job = None\<rparr>\<rparr>))"

text \<open>Lines 68 to 84: the \<^verbatim>\<open>catch\<close> block, which records the failure and throws it again.\<close>

definition process_failed ::
  "env \<Rightarrow> world \<Rightarrow> job \<Rightarrow> string \<Rightarrow> int \<Rightarrow> js_error \<Rightarrow> (js_error + process_result) \<times> world" where
  "process_failed e w jb jobId startTime err =
     (let (t1, w1) = Date_now e w;
          dur = t1 - startTime;
          started = stored_startedAt (jobHistory w1) jobId;
          (now, w2) = Date_now e w1
      in (Inl err,
          w2\<lparr>jobHistory := recordJob (jobHistory w2) jobId
                \<lparr>id_job = jobId, type_job = job_type jb, status = ''failed'',
                 startedAt = started, completedAt = None, failedAt = Some now,
                 duration = Some dur, result = None, error = Some (message err),
                 payload_job = None\<rparr>\<rparr>))"

text \<open>A sequence of \<^verbatim>\<open>recordJob\<close> calls, in order.\<close>

definition recordJobs :: "history \<Rightarrow> (string \<times> job_record) list \<Rightarrow> history" where
  "recordJobs h ws = foldl (\<lambda>h' (k, d). recordJob h' k d) h ws"

text \<open>
  While \<^verbatim>\<open>process\<close> is suspended at \<^verbatim>\<open>await handler(...)\<close>, other calls of \<^verbatim>\<open>process\<close>
  run and write to the same map, each write through \<^verbatim>\<open>recordJob\<close>. \<open>foreign\<close> is the
  list of those writes. The handlers do not read the map, so it does not matter where
  between the call and the resumption the writes fall.
\<close>

definition process ::
  "env \<Rightarrow> world \<Rightarrow> job \<Rightarrow> (string \<times> job_record) list \<Rightarrow> (js_error + process_result) \<times> world" where
  "process e w jb foreign =
     (let (jobId, startTime, w1) = process_start e w jb
      in (case handlers_get (job_type jb) of
            None \<Rightarrow>
              process_failed e w1 jb jobId startTime
                (Error (''Unknown job type: '' @ job_type jb))
          | Some h \<Rightarrow>
              (case invoke e w1 h (job_payload jb) jobId of
                 (Thrown err, w2) \<Rightarrow> process_failed e w2 jb jobId startTime err
               | (Awaited r, w2) \<Rightarrow>
                   let w3 = w2\<lparr>jobHistory := recordJobs (jobHistory w2) foreign\<rparr>
                   in (case r of
                         Inl err \<Rightarrow> process_failed e w3 jb jobId startTime err
                       | Inr res \<Rightarrow> process_completed e w3 jb jobId startTime res))))"

subsection \<open>Sample data\<close>

text \<open>
  Concrete values on which the theorems below are instantiated: an environment whose clock
  advances one second from reading to reading and whose downstream service rejects the
  requests for the lead ids \<open>bad\<close>, the world of a freshly started worker, and a history
  filled to its capacity by one hundred jobs, started one millisecond apart after the
  third reading of that clock.
\<close>

definition sample_id :: "nat \<Rightarrow> string" where
  "sample_id i = ''job_'' @ replicate i (CHR ''7'')"

definition sample_record :: "nat \<Rightarrow> job_record" where
  "sample_record i =
     \<lparr>id_job = sample_id i, type_job = ''cleanup.stale'', status = ''processing'',
      startedAt = Some (1730000002001 + int i), completedAt = None, failedAt = None,
      duration = None,
      result = None, error = None, payload_job = Some (JObj [])\<rparr>"

definition full_history :: history where
  "full_history = map (\<lambda>i. (sample_id i, sample_record i)) [0..<100]"

definition sample_respond :: "string list \<Rightarrow> request list \<Rightarrow> request \<Rightarrow> string + jsval" where
  "sample_respond bad sent req =
     (case get_prop (snd req) ''leadId'' of
        JStr l \<Rightarrow>
          if l \<in> set bad then Inl ''Request failed with status code 500''
          else Inr (JObj [(''leadId'', JStr l), (''score'', JNum 87)])
      | _ \<Rightarrow> Inr (JObj []))"

definition sample_env :: "string list \<Rightarrow> env" where
  "sample_env bad =
     \<lparr>timeSrc = (\<lambda>n. 1730000000000 + 1000 * int n),
      randomSrc = (\<lambda>n. 1 / 2),
      respond = sample_respond bad,
      toString36 = (\<lambda>r. ''0.i''),
      floorTimes = (\<lambda>r k. \<lfloor>r * of_int k\<rfloor>),
      toFixed2Times = (\<lambda>r k. ''50.00''),
      toISOString = (\<lambda>t. dec_int t),
      engineMessage = (\<lambda>f. ''TypeError''),
      UPR_OS_BASE_URL = None\<rparr>"

definition fresh_world :: world where
  "fresh_world = \<lparr>jobHistory = [], clockReads = 0, randomDraws = 0, requests = []\<rparr>"

text \<open>
  The sample environment with a wall clock that is set back ten seconds after the third
  reading.
\<close>

definition stepped_back_env :: env where
  "stepped_back_env =
     (sample_env [])\<lparr>timeSrc :=
        (\<lambda>n. if n < 3 then 1730000000000 + 1000 * int n else 1729999990000 + 1000 * int n)\<rparr>"

text \<open>The payload and the job of the two examples of the specification.\<close>

definition batch_payload :: jsval where
  "batch_payload =
     JObj [(''leadIds'', JArr [JStr ''L1'', JStr ''L2'']), (''tenantId'', JStr ''T1'')]"

definition single_job :: job where
  "single_job =
     \<lparr>job_type = ''enrichment.single'',
      job_payload = JObj [(''leadId'', JStr ''L1''), (''tenantId'', JStr ''T1'')]\<rparr>"

text \<open>Four jobs, inserted in an order that is not the order of their start times.\<close>

definition four_jobs :: history where
  "four_jobs =
     [(sample_id 2, sample_record 2), (sample_id 4, sample_record 4),
      (sample_id 1, sample_record 1), (sample_id 3, sample_record 3)]"

text \<open>
  The history after a run: \<^verbatim>\<open>process\<close> of the sample job starts on a fresh worker,
  the hundred jobs of \<open>full_history\<close> start while its request is in flight, it completes,
  and one more job starts after that.
\<close>

definition evicted_history :: history where
  "evicted_history =
     recordJob (jobHistory (snd (process (sample_env []) fresh_world single_job full_history)))
       (sample_id 5000) (sample_record 5000)"

subsection \<open>Notions used in the statements\<close>

text \<open>
  The request that the loop of a batch handler sends for one lead id, and the entries the
  loop collects, as a function of the responses: the entry of a lead id is decided by the
  response to its own request, sent after the requests of the lead ids before it.
\<close>

definition enrich_request :: "env \<Rightarrow> jsval \<Rightarrow> jsval \<Rightarrow> request" where
  "enrich_request e tenantId leadId =
     (OS_BASE_URL e @ ''/api/os/enrich'',
      JObj [(''leadId'', leadId), (''tenantId'', tenantId), (''source'', JStr ''worker-batch'')])"

definition score_request :: "env \<Rightarrow> jsval \<Rightarrow> jsval \<Rightarrow> jsval \<Rightarrow> request" where
  "score_request e tenantId vertical leadId =
     (OS_BASE_URL e @ ''/api/os/score'',
      JObj [(''leadId'', leadId), (''tenantId'', tenantId), (''vertical'', vertical),
            (''source'', JStr ''worker-batch'')])"

fun enrich_entries :: "env \<Rightarrow> request list \<Rightarrow> jsval \<Rightarrow> jsval list \<Rightarrow> jsval list" where
  "enrich_entries e sent t [] = []"
| "enrich_entries e sent t (l # ls) =
     (case respond e sent (enrich_request e t l) of
        Inl m \<Rightarrow> JObj [(''leadId'', l), (''status'', JStr ''failed''), (''error'', JStr m)]
      | Inr data \<Rightarrow> JObj [(''leadId'', l), (''status'', JStr ''enriched''), (''data'', data)])
     # enrich_entries e (sent @ [enrich_request e t l]) t ls"

fun score_entries :: "env \<Rightarrow> request list \<Rightarrow> jsval \<Rightarrow> jsval \<Rightarrow> jsval list \<Rightarrow> jsval list" where
  "score_entries e sent t v [] = []"
| "score_entries e sent t v (l # ls) =
     (case respond e sent (score_request e t v l) of
        Inl m \<Rightarrow> JObj [(''leadId'', l), (''status'', JStr ''failed''), (''error'', JStr m)]
      | Inr data \<Rightarrow>
          JObj [(''leadId'', l), (''status'', JStr ''scored''), (''score'', opt_prop data ''score'')])
     # score_entries e (sent @ [score_request e t v l]) t v ls"

text \<open>The identifier that \<^verbatim>\<open>process\<close> makes when it starts in the world \<open>w\<close>.\<close>

definition generated_id :: "env \<Rightarrow> world \<Rightarrow> string" where
  "generated_id e w =
     ''job_'' @ dec_int (timeSrc e (clockReads w)) @ ''_'' @
       take 9 (drop 2 (toString36 e (randomSrc e (randomDraws w))))"

text \<open>
  A list of records is ordered by \<^verbatim>\<open>startedAt\<close> descending when of any two records
  that both have one, the earlier in the list has the later time; a record without
  \<^verbatim>\<open>startedAt\<close> is not compared.
\<close>

definition ordered_desc :: "job_record list \<Rightarrow> bool" where
  "ordered_desc rs =
     sorted_wrt (\<lambda>a b. case (startedAt a, startedAt b) of
                          (Some ta, Some tb) \<Rightarrow> tb \<le> ta
                        | _ \<Rightarrow> True) rs"

section \<open>Properties\<close>

subsection \<open>The map operations\<close>

lemma Map_set_new: "k \<notin> set (Map_keys m) \<Longrightarrow> Map_set m k v = m @ [(k, v)]"
  by (induction m) (auto simp: Map_keys_def)

lemma Map_keys_set_present: "k \<in> set (Map_keys m) \<Longrightarrow> Map_keys (Map_set m k v) = Map_keys m"
  unfolding Map_keys_def by (induction m) force+

lemma Map_size_set:
  "Map_size (Map_set m k v) = (if k \<in> set (Map_keys m) then Map_size m else Suc (Map_size m))"
  unfolding Map_keys_def Map_size_def by (induction m) force+

lemma Map_get_set: "Map_get (Map_set m k v) k' = (if k' = k then Some v else Map_get m k')"
  by (induction m) auto

lemma Map_get_None_iff: "Map_get m k = None \<longleftrightarrow> k \<notin> set (Map_keys m)"
  unfolding Map_keys_def by (induction m) force+

lemma Map_set_nonempty: "Map_set m k v \<noteq> []"
  by (cases m) (auto split: if_splits)

lemma recordJob_unfold:
  "recordJob h k d =
     (if Map_size (Map_set h k d) > MAX_HISTORY then tl (Map_set h k d) else Map_set h k d)"
proof (cases "Map_set h k d")
  case Nil
  then show ?thesis using Map_set_nonempty[of h k d] by simp
next
  case (Cons p ps)
  then show ?thesis
    by (cases p) (simp add: recordJob_def Let_def Map_keys_def)
qed

lemma recordJob_present:
  assumes "k \<in> set (Map_keys h)" "Map_size h \<le> MAX_HISTORY"
  shows "recordJob h k d = Map_set h k d"
  using assms by (simp add: recordJob_unfold Map_size_set)

lemma recordJob_new_room:
  assumes "k \<notin> set (Map_keys h)" "Map_size h < MAX_HISTORY"
  shows "recordJob h k d = h @ [(k, d)]"
  using assms by (simp add: recordJob_unfold Map_set_new Map_size_def)

lemma recordJob_new_full:
  assumes "k \<notin> set (Map_keys h)" "Map_size h = MAX_HISTORY"
  shows "recordJob h k d = tl h @ [(k, d)]"
proof -
  have "h \<noteq> []" using assms(2) by (auto simp: Map_size_def MAX_HISTORY_def)
  then show ?thesis
    using assms by (simp add: recordJob_unfold Map_set_new Map_size_def)
qed

lemma recordJob_size:
  assumes "Map_size h \<le> MAX_HISTORY"
  shows "Map_size (recordJob h k d) \<le> MAX_HISTORY"
proof (cases "k \<in> set (Map_keys h)")
  case True
  then show ?thesis using assms by (simp add: recordJob_present Map_size_set)
next
  case False
  show ?thesis
  proof (cases "Map_size h = MAX_HISTORY")
    case True
    then show ?thesis using False
      by (simp add: recordJob_new_full) (simp add: Map_size_def MAX_HISTORY_def)
  next
    case False
    with assms have "Map_size h < MAX_HISTORY" by simp
    then show ?thesis using \<open>k \<notin> set (Map_keys h)\<close>
      by (simp add: recordJob_new_room) (simp add: Map_size_def)
  qed
qed

lemma recordJob_full_stays:
  assumes "Map_size h = MAX_HISTORY"
  shows "Map_size (recordJob h k d) = MAX_HISTORY"
proof (cases "k \<in> set (Map_keys h)")
  case True
  then show ?thesis using assms by (simp add: recordJob_present Map_size_set)
next
  case False
  then show ?thesis using assms
    by (simp add: recordJob_new_full) (simp add: Map_size_def MAX_HISTORY_def)
qed

lemma recordJob_get_same:
  assumes "Map_size h \<le> MAX_HISTORY"
  shows "Map_get (recordJob h k d) k = Some d"
proof (cases "k \<in> set (Map_keys h)")
  case True
  then show ?thesis using assms by (simp add: recordJob_present Map_get_set)
next
  case False
  have app: "Map_get (xs @ [(k, d)]) k = Some d" if "k \<notin> set (Map_keys xs)" for xs
    using that unfolding Map_keys_def by (induction xs) auto
  have tl_keys: "k \<notin> set (Map_keys (tl h))"
    using False unfolding Map_keys_def by (cases h) auto
  show ?thesis
  proof (cases "Map_size h = MAX_HISTORY")
    case True
    then show ?thesis using False tl_keys by (simp add: recordJob_new_full app)
  next
    case False
    with assms have "Map_size h < MAX_HISTORY" by simp
    then show ?thesis using \<open>k \<notin> set (Map_keys h)\<close> by (simp add: recordJob_new_room app)
  qed
qed

lemma recordJobs_size:
  "Map_size h \<le> MAX_HISTORY \<Longrightarrow> Map_size (recordJobs h ws) \<le> MAX_HISTORY"
  unfolding recordJobs_def
  by (induction ws arbitrary: h) (auto simp: recordJob_size)

lemma Map_size_empty: "Map_size [] \<le> MAX_HISTORY"
  by (simp add: Map_size_def)

subsection \<open>The sample data\<close>

lemma inj_sample_id: "inj sample_id"
proof (rule injI)
  fix i j assume "sample_id i = sample_id j"
  then have "length (sample_id i) = length (sample_id j)" by simp
  then show "i = j" by (simp add: sample_id_def)
qed

lemma full_history_size: "Map_size full_history = MAX_HISTORY"
  by (simp add: full_history_def Map_size_def MAX_HISTORY_def)

lemma full_history_keys: "Map_keys full_history = map sample_id [0..<100]"
  by (simp add: full_history_def Map_keys_def comp_def)

lemma full_history_distinct: "distinct (Map_keys full_history)"
  unfolding full_history_keys
  by (simp add: distinct_map inj_on_subset[OF inj_sample_id])

lemma new_not_in_full: "''new'' \<notin> set (Map_keys full_history)"
  by (auto simp: full_history_keys sample_id_def)

lemma five_in_full: "sample_id 5 \<in> set (Map_keys full_history)"
  by (simp add: full_history_keys)

lemma full_history_hd: "hd full_history = (sample_id 0, sample_record 0)"
  by (simp add: full_history_def upt_rec)

lemma sample_generated_id: "generated_id (sample_env bad) fresh_world = ''job_1730000000000_i''"
  by (simp add: generated_id_def sample_env_def fresh_world_def dec_int_def digit_char_def)

lemma sample_clock_mono: "mono (timeSrc (sample_env bad))"
  by (simp add: sample_env_def mono_def)

lemma fresh_world_size: "Map_size (jobHistory fresh_world) \<le> MAX_HISTORY"
  by (simp add: fresh_world_def Map_size_def)

lemma single_job_handler: "handlers_get (job_type single_job) = Some EnrichmentSingle"
  by (simp add: handlers_get_def handlers_def single_job_def)

lemma single_job_invoke:
  "invoke (sample_env bad) w1 EnrichmentSingle (job_payload single_job) j =
     (Awaited (if ''L1'' \<in> set bad then Inl (AxiosError ''Request failed with status code 500'')
               else Inr (JObj [(''leadId'', JStr ''L1''), (''score'', JNum 87)])),
      w1\<lparr>requests := requests w1 @
        [(OS_BASE_URL (sample_env bad) @ ''/api/os/enrich'',
          JObj [(''leadId'', JStr ''L1''), (''tenantId'', JStr ''T1''),
                (''source'', JStr ''worker-single'')])]\<rparr>)"
  by (simp add: handleEnrichmentSingle_def destructure_def template_def nullish_def
      single_job_def axios_post_def sample_env_def sample_respond_def Let_def)

subsection \<open>The batch loops\<close>

lemma enrichment_loop_eq:
  "enrichment_loop e w t items acc =
     (acc @ enrich_entries e (requests w) t items,
      w\<lparr>requests := requests w @ map (enrich_request e t) items\<rparr>)"
proof (induction items arbitrary: w acc)
  case Nil
  then show ?case by simp
next
  case (Cons l ls)
  show ?case
    by (cases "respond e (requests w) (enrich_request e t l)")
       (simp_all add: axios_post_def enrich_request_def Cons.IH)
qed

lemma scoring_loop_eq:
  "scoring_loop e w t v items acc =
     (acc @ score_entries e (requests w) t v items,
      w\<lparr>requests := requests w @ map (score_request e t v) items\<rparr>)"
proof (induction items arbitrary: w acc)
  case Nil
  then show ?case by simp
next
  case (Cons l ls)
  show ?case
    by (cases "respond e (requests w) (score_request e t v l)")
       (simp_all add: axios_post_def score_request_def Cons.IH)
qed

lemma length_enrich_entries: "length (enrich_entries e sent t items) = length items"
  by (induction items arbitrary: sent) simp_all

lemma length_score_entries: "length (score_entries e sent t v items) = length items"
  by (induction items arbitrary: sent) simp_all

lemma nth_enrich_entries:
  "i < length items \<Longrightarrow>
   enrich_entries e sent t items ! i =
     (case respond e (sent @ map (enrich_request e t) (take i items))
             (enrich_request e t (items ! i)) of
        Inl m \<Rightarrow> JObj [(''leadId'', items ! i), (''status'', JStr ''failed''), (''error'', JStr m)]
      | Inr data \<Rightarrow>
          JObj [(''leadId'', items ! i), (''status'', JStr ''enriched''), (''data'', data)])"
proof (induction items arbitrary: sent i)
  case Nil
  then show ?case by simp
next
  case (Cons l ls)
  show ?case
  proof (cases i)
    case 0
    then show ?thesis by (simp split: sum.splits)
  next
    case (Suc j)
    with Cons.prems have "j < length ls" by simp
    from Cons.IH[OF this, of "sent @ [enrich_request e t l]"] Suc
    show ?thesis by (simp split: sum.splits)
  qed
qed

lemma nth_score_entries:
  "i < length items \<Longrightarrow>
   score_entries e sent t v items ! i =
     (case respond e (sent @ map (score_request e t v) (take i items))
             (score_request e t v (items ! i)) of
        Inl m \<Rightarrow> JObj [(''leadId'', items ! i), (''status'', JStr ''failed''), (''error'', JStr m)]
      | Inr data \<Rightarrow>
          JObj [(''leadId'', items ! i), (''status'', JStr ''scored''),
                (''score'', opt_prop data ''score'')])"
proof (induction items arbitrary: sent i)
  case Nil
  then show ?case by simp
next
  case (Cons l ls)
  show ?case
  proof (cases i)
    case 0
    then show ?thesis by (simp split: sum.splits)
  next
    case (Suc j)
    with Cons.prems have "j < length ls" by simp
    from Cons.IH[OF this, of "sent @ [score_request e t v l]"] Suc
    show ?thesis by (simp split: sum.splits)
  qed
qed

lemma get_prop_not_nullish: "get_prop p k = JArr xs \<Longrightarrow> \<not> nullish p"
  by (cases p) (auto simp: nullish_def)

lemma handleEnrichmentBatch_array:
  assumes "get_prop payload ''leadIds'' = JArr xs"
  shows "handleEnrichmentBatch e w payload jobId =
     (Inr (JObj [(''processed'', JNum (of_nat (length xs))),
                 (''results'', JArr (enrich_entries e (requests w) (get_prop payload ''tenantId'') xs))]),
      w\<lparr>requests := requests w @ map (enrich_request e (get_prop payload ''tenantId'')) xs\<rparr>)"
  using assms get_prop_not_nullish[OF assms]
  by (simp add: handleEnrichmentBatch_def destructure_def template_def js_or_def opt_length_def
      nullish_def enrichment_loop_eq length_enrich_entries Let_def)

lemma handleScoringBatch_array:
  assumes "get_prop payload ''leadIds'' = JArr xs"
  shows "handleScoringBatch e w payload jobId =
     (Inr (JObj [(''processed'', JNum (of_nat (length xs))),
                 (''results'', JArr (score_entries e (requests w) (get_prop payload ''tenantId'')
                                       (get_prop payload ''vertical'') xs))]),
      w\<lparr>requests := requests w @ map (score_request e (get_prop payload ''tenantId'')
                                         (get_prop payload ''vertical'')) xs\<rparr>)"
  using assms get_prop_not_nullish[OF assms]
  by (simp add: handleScoringBatch_def destructure_def template_def js_or_def opt_length_def
      nullish_def scoring_loop_eq length_score_entries Let_def)

lemma batch_nullish_payload:
  assumes "nullish payload"
  shows "handleEnrichmentBatch e w payload jobId =
           (Inl (TypeError (engineMessage e (CannotDestructure ''leadIds'' payload))), w)"
    and "handleScoringBatch e w payload jobId =
           (Inl (TypeError (engineMessage e (CannotDestructure ''leadIds'' payload))), w)"
  using assms
  by (simp_all add: handleEnrichmentBatch_def handleScoringBatch_def destructure_def)

lemma batch_absent:
  assumes "\<not> nullish payload" "nullish (get_prop payload ''leadIds'')"
  shows "handleEnrichmentBatch e w payload jobId =
           (Inr (JObj [(''processed'', JNum 0), (''results'', JArr [])]), w)"
    and "handleScoringBatch e w payload jobId =
           (Inr (JObj [(''processed'', JNum 0), (''results'', JArr [])]), w)"
  using assms
  by (auto simp: handleEnrichmentBatch_def handleScoringBatch_def destructure_def template_def
      js_or_def opt_length_def nullish_def Let_def)

subsection \<open>What a handler leaves untouched\<close>

text \<open>No handler writes to the history, and the count of clock readings only grows.\<close>

lemma handleEnrichmentBatch_frame:
  "handleEnrichmentBatch e w p j = (r, w') \<Longrightarrow>
     jobHistory w' = jobHistory w \<and> clockReads w \<le> clockReads w'"
  by (auto simp: handleEnrichmentBatch_def enrichment_loop_eq Let_def
      split: option.splits)

lemma handleScoringBatch_frame:
  "handleScoringBatch e w p j = (r, w') \<Longrightarrow>
     jobHistory w' = jobHistory w \<and> clockReads w \<le> clockReads w'"
  by (auto simp: handleScoringBatch_def scoring_loop_eq Let_def
      split: option.splits)

lemma handleEnrichmentSingle_frame:
  "handleEnrichmentSingle e w p j = (r, w') \<Longrightarrow>
     jobHistory w' = jobHistory w \<and> clockReads w \<le> clockReads w'"
  by (auto simp: handleEnrichmentSingle_def axios_post_def Let_def split: option.splits)

lemma handleScheduledPipeline_frame:
  "handleScheduledPipeline e w p j = (r, w') \<Longrightarrow>
     jobHistory w' = jobHistory w \<and> clockReads w \<le> clockReads w'"
  by (auto simp: handleScheduledPipeline_def axios_post_def Let_def split: option.splits)

lemma handleBackgroundDiscovery_frame:
  "handleBackgroundDiscovery e w p j = (r, w') \<Longrightarrow>
     jobHistory w' = jobHistory w \<and> clockReads w \<le> clockReads w'"
  by (auto simp: handleBackgroundDiscovery_def axios_post_def Let_def split: option.splits)

lemma handleSignalAggregation_frame:
  "handleSignalAggregation e w p j = (r, w') \<Longrightarrow>
     jobHistory w' = jobHistory w \<and> clockReads w \<le> clockReads w'"
  by (auto simp: handleSignalAggregation_def Date_now_def Math_random_def Let_def
      split: option.splits)

lemma handleOutreachCampaign_frame:
  "handleOutreachCampaign e w p j = (r, w') \<Longrightarrow>
     jobHistory w' = jobHistory w \<and> clockReads w \<le> clockReads w'"
  by (auto simp: handleOutreachCampaign_def Date_now_def Math_random_def Let_def
      split: option.splits)

lemma handleStaleCleanup_frame:
  "handleStaleCleanup e w p j = (r, w') \<Longrightarrow>
     jobHistory w' = jobHistory w \<and> clockReads w \<le> clockReads w'"
  by (auto simp: handleStaleCleanup_def Date_now_def Math_random_def Let_def
      split: option.splits)

lemma handleExportGeneration_frame:
  "handleExportGeneration e w p j = (r, w') \<Longrightarrow>
     jobHistory w' = jobHistory w \<and> clockReads w \<le> clockReads w'"
  by (auto simp: handleExportGeneration_def Date_now_def Math_random_def Let_def
      split: option.splits)

lemma handleAnalyticsAggregation_frame:
  "handleAnalyticsAggregation e w p j = (r, w') \<Longrightarrow>
     jobHistory w' = jobHistory w \<and> clockReads w \<le> clockReads w'"
  by (auto simp: handleAnalyticsAggregation_def Date_now_def Math_random_def Let_def
      split: option.splits)

lemma invoke_frame:
  assumes "invoke e w h p j = (iv, w')"
  shows "jobHistory w' = jobHistory w \<and> clockReads w \<le> clockReads w'"
proof (cases h)
  case EnrichmentBatch
  then show ?thesis using assms handleEnrichmentBatch_frame[of e w p j]
    by (auto split: prod.splits)
next
  case EnrichmentSingle
  then show ?thesis using assms handleEnrichmentSingle_frame[of e w p j]
    by (auto split: prod.splits)
next
  case SignalAggregation
  then show ?thesis using assms handleSignalAggregation_frame[of e w p j]
    by (auto split: prod.splits)
next
  case ScheduledPipeline
  then show ?thesis using assms handleScheduledPipeline_frame[of e w p j]
    by (auto split: prod.splits)
next
  case ScoringBatch
  then show ?thesis using assms handleScoringBatch_frame[of e w p j]
    by (auto split: prod.splits)
next
  case OutreachCampaign
  then show ?thesis using assms handleOutreachCampaign_frame[of e w p j]
    by (auto split: prod.splits)
next
  case BackgroundDiscovery
  then show ?thesis using assms handleBackgroundDiscovery_frame[of e w p j]
    by (auto split: prod.splits)
next
  case StaleCleanup
  then show ?thesis using assms handleStaleCleanup_frame[of e w p j]
    by (auto split: prod.splits)
next
  case ExportGeneration
  then show ?thesis using assms handleExportGeneration_frame[of e w p j]
    by (auto split: prod.splits)
next
  case AnalyticsAggregation
  then show ?thesis using assms handleAnalyticsAggregation_frame[of e w p j]
    by (auto split: prod.splits)
next
  case (Inherited m)
  then show ?thesis using assms by (auto split: sum.splits)
qed

subsection \<open>The phases of \<open>process\<close>\<close>

lemma process_start_eq:
  "process_start e w jb =
     (generated_id e w, timeSrc e (Suc (clockReads w)),
      w\<lparr>clockReads := clockReads w + 3, randomDraws := Suc (randomDraws w),
        jobHistory := recordJob (jobHistory w) (generated_id e w)
          \<lparr>id_job = generated_id e w, type_job = job_type jb, status = ''processing'',
           startedAt = Some (timeSrc e (Suc (Suc (clockReads w)))), completedAt = None,
           failedAt = None, duration = None, result = None, error = None,
           payload_job = Some (job_payload jb)\<rparr>\<rparr>)"
  by (simp add: process_start_def generated_id_def Date_now_def Math_random_def Let_def)

lemma process_start_facts:
  assumes "process_start e w jb = (jobId, startTime, w1)"
  shows "jobId = generated_id e w" "startTime = timeSrc e (Suc (clockReads w))"
    "clockReads w1 = clockReads w + 3"
    "Map_size (jobHistory w) \<le> MAX_HISTORY \<Longrightarrow> Map_size (jobHistory w1) \<le> MAX_HISTORY"
    "Map_size (jobHistory w) \<le> MAX_HISTORY \<Longrightarrow> jobId \<in> set (Map_keys (jobHistory w1))"
proof -
  show a: "jobId = generated_id e w" and "startTime = timeSrc e (Suc (clockReads w))"
    and "clockReads w1 = clockReads w + 3"
    using assms by (auto simp: process_start_eq)
  assume sz: "Map_size (jobHistory w) \<le> MAX_HISTORY"
  show "Map_size (jobHistory w1) \<le> MAX_HISTORY"
    using assms recordJob_size[OF sz] by (auto simp: process_start_eq)
  have "Map_get (jobHistory w1) jobId \<noteq> None"
    using assms recordJob_get_same[OF sz, of "generated_id e w"] by (auto simp: process_start_eq)
  then show "jobId \<in> set (Map_keys (jobHistory w1))"
    by (simp add: Map_get_None_iff)
qed

lemma process_completed_facts:
  assumes "Map_size (jobHistory w) \<le> MAX_HISTORY"
  shows "fst (process_completed e w jb jobId startTime res) =
           Inr \<lparr>ret_jobId = jobId, ret_status = ''completed'',
                ret_duration = timeSrc e (clockReads w) - startTime, ret_result = res\<rparr>"
    and "Map_get (jobHistory (snd (process_completed e w jb jobId startTime res))) jobId =
           Some \<lparr>id_job = jobId, type_job = job_type jb, status = ''completed'',
                 startedAt = stored_startedAt (jobHistory w) jobId,
                 completedAt = Some (timeSrc e (Suc (clockReads w))), failedAt = None,
                 duration = Some (timeSrc e (clockReads w) - startTime), result = Some res,
                 error = None, payload_job = None\<rparr>"
  using assms
  by (simp_all add: process_completed_def Date_now_def Let_def recordJob_get_same)

lemma process_failed_facts:
  assumes "Map_size (jobHistory w) \<le> MAX_HISTORY"
  shows "fst (process_failed e w jb jobId startTime err) = Inl err"
    and "Map_get (jobHistory (snd (process_failed e w jb jobId startTime err))) jobId =
           Some \<lparr>id_job = jobId, type_job = job_type jb, status = ''failed'',
                 startedAt = stored_startedAt (jobHistory w) jobId,
                 completedAt = None, failedAt = Some (timeSrc e (Suc (clockReads w))),
                 duration = Some (timeSrc e (clockReads w) - startTime), result = None,
                 error = Some (message err), payload_job = None\<rparr>"
  using assms
  by (simp_all add: process_failed_def Date_now_def Let_def recordJob_get_same)

lemma process_awaited:
  assumes "process_start e w jb = (jobId, startTime, w1)"
    and "handlers_get (job_type jb) = Some h"
    and "invoke e w1 h (job_payload jb) jobId = (Awaited out, w2)"
  shows "process e w jb foreign =
     (case out of
        Inl err \<Rightarrow>
          process_failed e (w2\<lparr>jobHistory := recordJobs (jobHistory w2) foreign\<rparr>) jb jobId startTime err
      | Inr res \<Rightarrow>
          process_completed e (w2\<lparr>jobHistory := recordJobs (jobHistory w2) foreign\<rparr>) jb jobId
            startTime res)"
  using assms by (simp add: process_def Let_def)

lemma process_thrown:
  assumes "process_start e w jb = (jobId, startTime, w1)"
    and "handlers_get (job_type jb) = Some h"
    and "invoke e w1 h (job_payload jb) jobId = (Thrown err, w2)"
  shows "process e w jb foreign = process_failed e w2 jb jobId startTime err"
  using assms by (simp add: process_def Let_def)

lemma process_unknown:
  assumes "process_start e w jb = (jobId, startTime, w1)"
    and "handlers_get (job_type jb) = None"
  shows "process e w jb foreign =
     process_failed e w1 jb jobId startTime (Error (''Unknown job type: '' @ job_type jb))"
  using assms by (simp add: process_def Let_def)

lemma suspended_world:
  assumes sz: "Map_size (jobHistory w) \<le> MAX_HISTORY"
    and start: "process_start e w jb = (jobId, startTime, w1)"
    and inv: "invoke e w1 h p jobId = (iv, w2)"
  shows "Map_size (jobHistory w2) \<le> MAX_HISTORY"
    and "Map_size (recordJobs (jobHistory w2) foreign) \<le> MAX_HISTORY"
    and "Suc (clockReads w) \<le> clockReads w2"
    and "jobId \<in> set (Map_keys (jobHistory w2))"
proof -
  have fr: "jobHistory w2 = jobHistory w1" "clockReads w1 \<le> clockReads w2"
    using invoke_frame[OF inv] by simp_all
  show a: "Map_size (jobHistory w2) \<le> MAX_HISTORY"
    using process_start_facts(4)[OF start sz] fr by simp
  show "Map_size (recordJobs (jobHistory w2) foreign) \<le> MAX_HISTORY"
    using a by (rule recordJobs_size)
  show "Suc (clockReads w) \<le> clockReads w2"
    using process_start_facts(3)[OF start] fr by simp
  show "jobId \<in> set (Map_keys (jobHistory w2))"
    using process_start_facts(5)[OF start sz] fr by simp
qed

lemma process_failed_history:
  "jobHistory (snd (process_failed e w jb jobId startTime err)) =
     recordJob (jobHistory w) jobId
       \<lparr>id_job = jobId, type_job = job_type jb, status = ''failed'',
        startedAt = stored_startedAt (jobHistory w) jobId,
        completedAt = None, failedAt = Some (timeSrc e (Suc (clockReads w))),
        duration = Some (timeSrc e (clockReads w) - startTime), result = None,
        error = Some (message err), payload_job = None\<rparr>"
  by (simp add: process_failed_def Date_now_def Let_def)

lemma process_completed_history:
  "jobHistory (snd (process_completed e w jb jobId startTime res)) =
     recordJob (jobHistory w) jobId
       \<lparr>id_job = jobId, type_job = job_type jb, status = ''completed'',
        startedAt = stored_startedAt (jobHistory w) jobId,
        completedAt = Some (timeSrc e (Suc (clockReads w))), failedAt = None,
        duration = Some (timeSrc e (clockReads w) - startTime), result = Some res,
        error = None, payload_job = None\<rparr>"
  by (simp add: process_completed_def Date_now_def Let_def)

lemma recordJob_keeps_or_full:
  assumes "Map_size h \<le> MAX_HISTORY" and "k \<in> set (Map_keys h)"
  shows "k \<in> set (Map_keys (recordJob h k' d)) \<or> Map_size (recordJob h k' d) = MAX_HISTORY"
proof (cases "k' \<in> set (Map_keys h)")
  case True
  then show ?thesis using assms by (simp add: recordJob_present Map_keys_set_present)
next
  case False
  show ?thesis
  proof (cases "Map_size h = MAX_HISTORY")
    case True
    then show ?thesis by (simp add: recordJob_full_stays)
  next
    case False
    with assms have "Map_size h < MAX_HISTORY" by simp
    then show ?thesis using \<open>k' \<notin> set (Map_keys h)\<close> assms(2)
      by (simp add: recordJob_new_room Map_keys_def)
  qed
qed

lemma recordJobs_full_stays:
  "Map_size h = MAX_HISTORY \<Longrightarrow> Map_size (recordJobs h ws) = MAX_HISTORY"
  unfolding recordJobs_def
  by (induction ws arbitrary: h) (auto simp: recordJob_full_stays)

lemma recordJobs_Cons: "recordJobs h ((k, d) # ws) = recordJobs (recordJob h k d) ws"
  by (simp add: recordJobs_def)

lemma recordJobs_snoc: "recordJobs h (ws @ [(k, d)]) = recordJob (recordJobs h ws) k d"
  by (simp add: recordJobs_def)

lemma recordJobs_keeps_or_full:
  "Map_size h \<le> MAX_HISTORY \<Longrightarrow> k \<in> set (Map_keys h) \<Longrightarrow>
     k \<in> set (Map_keys (recordJobs h ws)) \<or> Map_size (recordJobs h ws) = MAX_HISTORY"
proof (induction ws arbitrary: h)
  case Nil
  then show ?case by (simp add: recordJobs_def)
next
  case (Cons x ws)
  obtain k' d where x: "x = (k', d)" by (cases x)
  have sz: "Map_size (recordJob h k' d) \<le> MAX_HISTORY"
    using Cons.prems(1) by (rule recordJob_size)
  from recordJob_keeps_or_full[OF Cons.prems, of k' d] show ?case
  proof
    assume "k \<in> set (Map_keys (recordJob h k' d))"
    from Cons.IH[OF sz this] show ?thesis by (simp add: x recordJobs_Cons)
  next
    assume "Map_size (recordJob h k' d) = MAX_HISTORY"
    then show ?thesis by (simp add: x recordJobs_Cons recordJobs_full_stays)
  qed
qed

lemma recordJobs_fresh_room:
  "distinct (map fst ws) \<Longrightarrow> set (map fst ws) \<inter> set (Map_keys h) = {} \<Longrightarrow>
   Map_size h + length ws \<le> MAX_HISTORY \<Longrightarrow> recordJobs h ws = h @ ws"
proof (induction ws arbitrary: h)
  case Nil
  then show ?case by (simp add: recordJobs_def)
next
  case (Cons x ws)
  obtain k d where x: "x = (k, d)" by (cases x)
  have step: "recordJob h k d = h @ [(k, d)]"
    using Cons.prems by (intro recordJob_new_room) (auto simp: x)
  have "recordJobs (h @ [(k, d)]) ws = (h @ [(k, d)]) @ ws"
    using Cons.prems by (intro Cons.IH) (auto simp: x Map_keys_def Map_size_def)
  then show ?case by (simp add: x recordJobs_Cons step)
qed

lemma terminal_write:
  assumes sz: "Map_size (jobHistory w) \<le> MAX_HISTORY"
    and start: "process_start e w jb = (jobId, startTime, w1)"
    and tbl: "handlers_get (job_type jb) = Some h"
    and inv: "invoke e w1 h (job_payload jb) jobId = (Awaited out, w2)"
  shows "(\<exists>r. Map_get (jobHistory (snd (process e w jb foreign))) jobId = Some r \<and>
            startedAt r = stored_startedAt (recordJobs (jobHistory w2) foreign) jobId) \<and>
         (Map_get (recordJobs (jobHistory w2) foreign) jobId = None \<longrightarrow>
            Map_size (recordJobs (jobHistory w2) foreign) = MAX_HISTORY \<and>
            (\<exists>r. jobHistory (snd (process e w jb foreign)) =
                    tl (recordJobs (jobHistory w2) foreign) @ [(jobId, r)] \<and>
                  startedAt r = None))"
proof -
  let ?H = "recordJobs (jobHistory w2) foreign"
  let ?w3 = "w2\<lparr>jobHistory := ?H\<rparr>"
  have szH: "Map_size ?H \<le> MAX_HISTORY"
    using suspended_world(2)[OF sz start inv] .
  obtain r where hist: "jobHistory (snd (process e w jb foreign)) = recordJob ?H jobId r"
    and st: "startedAt r = stored_startedAt ?H jobId"
  proof (cases out)
    case (Inl err)
    then show ?thesis
      using that process_awaited[OF start tbl inv, of foreign]
      by (simp add: process_failed_history)
  next
    case (Inr res)
    then show ?thesis
      using that process_awaited[OF start tbl inv, of foreign]
      by (simp add: process_completed_history)
  qed
  have first: "Map_get (jobHistory (snd (process e w jb foreign))) jobId = Some r"
    using hist recordJob_get_same[OF szH] by simp
  have second: "Map_size ?H = MAX_HISTORY \<and>
      jobHistory (snd (process e w jb foreign)) = tl ?H @ [(jobId, r)] \<and> startedAt r = None"
    if gone: "Map_get ?H jobId = None"
  proof -
    have nk: "jobId \<notin> set (Map_keys ?H)" using gone by (simp add: Map_get_None_iff)
    have full: "Map_size ?H = MAX_HISTORY"
      using recordJobs_keeps_or_full[OF suspended_world(1)[OF sz start inv]
          suspended_world(4)[OF sz start inv], of foreign] nk by simp
    show ?thesis
      using full hist recordJob_new_full[OF nk full] st gone
      by (simp add: stored_startedAt_def)
  qed
  show ?thesis using first st second by blast
qed





subsection \<open>Runs on the sample data\<close>

lemma full_history_split:
  "full_history = map (\<lambda>i. (sample_id i, sample_record i)) [0..<99] @
     [(sample_id 99, sample_record 99)]"
proof -
  have "[0..<100] = [0..<99] @ [99::nat]"
    using upt_Suc_append[of 0 99] by simp
  then show ?thesis by (simp add: full_history_def)
qed

lemma recordJobs_sample:
  assumes "j \<notin> set (Map_keys full_history)"
  shows "recordJobs [(j, p)] full_history = full_history"
proof -
  let ?f = "\<lambda>i. (sample_id i, sample_record i)"
  let ?init = "map ?f [0..<99]"
  have keys: "map fst ?init = map sample_id [0..<99]" by (simp add: comp_def)
  have sub: "set (map sample_id [0..<99]) \<subseteq> set (Map_keys full_history)"
    by (auto simp: full_history_keys)
  have d: "distinct (map fst ?init)"
    unfolding keys by (simp add: distinct_map inj_on_subset[OF inj_sample_id])
  have a: "recordJobs [(j, p)] ?init = [(j, p)] @ ?init"
    using assms sub d
    by (intro recordJobs_fresh_room) (auto simp: keys Map_keys_def Map_size_def MAX_HISTORY_def)
  have in99: "sample_id 99 \<in> set (Map_keys full_history)"
    by (simp add: full_history_keys)
  have other: "j \<noteq> sample_id 99" using assms in99 by auto
  have "sample_id 99 \<noteq> sample_id x" if "x < 99" for x
    using that injD[OF inj_sample_id, of 99 x] by auto
  then have "sample_id 99 \<notin> set (map sample_id [0..<99])" by (simp add: image_iff)
  then have nk: "sample_id 99 \<notin> set (Map_keys ([(j, p)] @ ?init))"
    using other by (simp add: Map_keys_def comp_def)
  have full: "Map_size ([(j, p)] @ ?init) = MAX_HISTORY"
    by (simp add: Map_size_def MAX_HISTORY_def)
  have "recordJobs [(j, p)] full_history =
      recordJob (recordJobs [(j, p)] ?init) (sample_id 99) (sample_record 99)"
    by (subst full_history_split) (rule recordJobs_snoc)
  also have "\<dots> = recordJob ([(j, p)] @ ?init) (sample_id 99) (sample_record 99)"
    using a by simp
  also have "\<dots> = tl ([(j, p)] @ ?init) @ [(sample_id 99, sample_record 99)]"
    by (rule recordJob_new_full[OF nk full])
  also have "\<dots> = full_history"
    by (simp add: full_history_split)
  finally show ?thesis .
qed

lemma sample_start:
  obtains startTime w1 where
    "process_start (sample_env bad) fresh_world jb = (''job_1730000000000_i'', startTime, w1)"
    and "startTime = 1730000001000" and "clockReads w1 = 3"
    and "jobHistory w1 =
      [(''job_1730000000000_i'',
        \<lparr>id_job = ''job_1730000000000_i'', type_job = job_type jb, status = ''processing'',
         startedAt = Some 1730000002000, completedAt = None, failedAt = None,
         duration = None, result = None, error = None,
         payload_job = Some (job_payload jb)\<rparr>)]"
proof -
  have "recordJob [] k d = [(k, d)]" for k d
    by (simp add: recordJob_def Map_size_def MAX_HISTORY_def)
  then show ?thesis
    using that
    by (simp add: process_start_eq sample_generated_id)
       (simp add: sample_env_def fresh_world_def)
qed

lemma stepped_back_start:
  obtains w1 where
    "process_start stepped_back_env fresh_world jb = (''job_1730000000000_i'', 1730000001000, w1)"
    and "clockReads w1 = 3"
    and "jobHistory w1 =
      [(''job_1730000000000_i'',
        \<lparr>id_job = ''job_1730000000000_i'', type_job = job_type jb, status = ''processing'',
         startedAt = Some 1730000002000, completedAt = None, failedAt = None,
         duration = None, result = None, error = None,
         payload_job = Some (job_payload jb)\<rparr>)]"
proof -
  have r: "recordJob [] k d = [(k, d)]" for k d
    by (simp add: recordJob_def Map_size_def MAX_HISTORY_def)
  have g: "generated_id stepped_back_env fresh_world = ''job_1730000000000_i''"
    by (simp add: generated_id_def stepped_back_env_def sample_env_def fresh_world_def
        dec_int_def digit_char_def)
  show ?thesis
    using that
    by (simp add: process_start_eq g)
       (simp add: stepped_back_env_def sample_env_def fresh_world_def r)
qed

subsection \<open>Sorting by \<^verbatim>\<open>startedAt\<close>\<close>

lemma mset_insert_js: "mset (insert_js cmp x ys) = add_mset x (mset ys)"
  by (induction ys) auto

lemma mset_sort_js: "mset (sort_js cmp xs) = mset xs"
  by (induction xs) (auto simp: mset_insert_js)

lemma set_insert_js: "set (insert_js cmp x ys) = insert x (set ys)"
  using mset_insert_js[of cmp x ys] by (metis set_mset_add_mset_insert set_mset_mset)

lemma set_sort_js: "set (sort_js cmp xs) = set xs"
  using mset_sort_js[of cmp xs] by (metis set_mset_mset)

lemma length_sort_js: "length (sort_js cmp xs) = length xs"
  using mset_sort_js[of cmp xs] by (metis size_mset)

lemma SortCompare_startedAt:
  "startedAt a = Some ta \<Longrightarrow> startedAt b = Some tb \<Longrightarrow>
     SortCompare compare_startedAt a b = tb - ta"
  by (simp add: SortCompare_def compare_startedAt_def)

lemma SortCompare_undefined:
  "startedAt a = None \<or> startedAt b = None \<Longrightarrow> SortCompare compare_startedAt a b = 0"
  by (auto simp: SortCompare_def compare_startedAt_def split: option.splits)

lemma ordered_insert_js:
  assumes "\<forall>r \<in> set (x # ys). startedAt r \<noteq> None" and "ordered_desc ys"
  shows "ordered_desc (insert_js compare_startedAt x ys)"
  using assms
proof (induction ys)
  case Nil
  then show ?case by (simp add: ordered_desc_def)
next
  case (Cons y ys)
  obtain tx ty where t: "startedAt x = Some tx" "startedAt y = Some ty"
    using Cons.prems(1) by auto
  have ih: "ordered_desc (insert_js compare_startedAt x ys)"
    using Cons by (simp add: ordered_desc_def)
  show ?case
  proof (cases "SortCompare compare_startedAt x y \<le> 0")
    case True
    then have le: "ty \<le> tx" using t by (simp add: SortCompare_startedAt)
    have "\<forall>z \<in> set ys. case (startedAt x, startedAt z) of
            (Some ta, Some tb) \<Rightarrow> tb \<le> ta | _ \<Rightarrow> True"
    proof
      fix z assume z: "z \<in> set ys"
      then obtain tz where tz: "startedAt z = Some tz" using Cons.prems(1) by auto
      have "tz \<le> ty" using Cons.prems(2) z t tz by (auto simp: ordered_desc_def)
      then show "case (startedAt x, startedAt z) of
            (Some ta, Some tb) \<Rightarrow> tb \<le> ta | _ \<Rightarrow> True"
        using le t tz by simp
    qed
    then show ?thesis using True Cons.prems(2) le t by (simp add: ordered_desc_def)
  next
    case False
    then have lt: "tx < ty" using t by (simp add: SortCompare_startedAt)
    have "\<forall>z \<in> set (insert_js compare_startedAt x ys).
            case (startedAt y, startedAt z) of
              (Some ta, Some tb) \<Rightarrow> tb \<le> ta | _ \<Rightarrow> True"
      using Cons.prems(2) lt t by (auto simp: set_insert_js ordered_desc_def)
    then show ?thesis using False ih by (simp add: ordered_desc_def)
  qed
qed

lemma ordered_sort_js:
  "\<forall>r \<in> set xs. startedAt r \<noteq> None \<Longrightarrow> ordered_desc (sort_js compare_startedAt xs)"
proof (induction xs)
  case Nil
  then show ?case by (simp add: ordered_desc_def)
next
  case (Cons x xs)
  then show ?case by (simp add: ordered_insert_js set_sort_js)
qed

lemma length_slice0:
  "0 \<le> limit \<Longrightarrow> length (slice0 xs limit) = min (nat limit) (length xs)"
  by (simp add: slice0_def)

lemma four_sorted_unique:
  fixes a b c d :: job_record
  assumes m: "mset S = {#a, b, c, d#}"
    and t: "startedAt a = Some T1" "startedAt b = Some T2" "startedAt c = Some T3"
      "startedAt d = Some T4"
    and lt: "T1 < T2" "T2 < T3" "T3 < T4"
    and ord: "ordered_desc S"
  shows "S = [d, c, b, a]"
proof -
  define tm where "tm r = the (startedAt r)" for r :: job_record
  have tms: "tm a = T1" "tm b = T2" "tm c = T3" "tm d = T4"
    using t by (simp_all add: tm_def)
  have "set S = set_mset (mset S)" by simp
  then have setS: "set S = {a, b, c, d}" by (auto simp: m)
  have "length S = size (mset S)" by simp
  then have lenS: "length S = 4" by (simp add: m)
  have defd: "\<forall>r \<in> set S. startedAt r = Some (tm r)"
    using setS t by (auto simp: tm_def)
  have "sorted_wrt (\<lambda>x y. tm y \<le> tm x) S"
  proof (rule sorted_wrt_mono_rel[OF _ ord[unfolded ordered_desc_def]])
    fix x y
    assume "x \<in> set S" "y \<in> set S"
      and "case (startedAt x, startedAt y) of (Some ta, Some tb) \<Rightarrow> tb \<le> ta | _ \<Rightarrow> True"
    then show "tm y \<le> tm x" using defd by auto
  qed
  then have "sorted_wrt (\<lambda>x y. y \<le> x) (map tm S)"
    by (simp add: sorted_wrt_map)
  then have srt: "sorted (rev (map tm S))"
    by (simp add: sorted_wrt_rev)
  have setL: "set (rev (map tm S)) = {T1, T2, T3, T4}"
    using setS tms by auto
  have "card (set (rev (map tm S))) = 4"
    using setL lt by simp
  then have dist: "distinct (rev (map tm S))"
    using lenS by (simp add: card_distinct)
  have "rev (map tm S) = [T1, T2, T3, T4]"
  proof (rule sorted_distinct_set_unique[OF srt dist])
    show "sorted [T1, T2, T3, T4]" using lt by simp
    show "distinct [T1, T2, T3, T4]" using lt by simp
    show "set (rev (map tm S)) = set [T1, T2, T3, T4]" using setL by simp
  qed
  then have "rev (rev (map tm S)) = rev [T1, T2, T3, T4]" by (rule arg_cong)
  then have L: "map tm S = [T4, T3, T2, T1]" by simp
  then obtain s1 s2 s3 s4 where S: "S = [s1, s2, s3, s4]"
    and k: "tm s1 = T4" "tm s2 = T3" "tm s3 = T2" "tm s4 = T1"
    by (auto simp: map_eq_Cons_conv)
  have "s1 = d" "s2 = c" "s3 = b" "s4 = a"
    using setS S k tms lt by auto
  then show ?thesis using S by simp
qed

lemma insert_js_undefined:
  "startedAt u = None \<Longrightarrow> insert_js compare_startedAt u ys = u # ys"
  by (cases ys) (simp_all add: SortCompare_undefined)

lemma insert_js_blocked:
  "startedAt u = None \<Longrightarrow>
     \<exists>L'. insert_js compare_startedAt x (L @ u # T) = L' @ u # T \<and> set L' = insert x (set L)"
proof (induction L)
  case Nil
  then have "insert_js compare_startedAt x ([] @ u # T) = [x] @ u # T"
    by (simp add: SortCompare_undefined)
  then show ?case by (metis list.simps(15) empty_set)
next
  case (Cons l L)
  from Cons.IH[OF Cons.prems] obtain L' where
    L': "insert_js compare_startedAt x (L @ u # T) = L' @ u # T" "set L' = insert x (set L)"
    by blast
  show ?case
  proof (cases "SortCompare compare_startedAt x l \<le> 0")
    case True
    then have "insert_js compare_startedAt x ((l # L) @ u # T) = (x # l # L) @ u # T"
      by simp
    moreover have "set (x # l # L) = insert x (set (l # L))" by simp
    ultimately show ?thesis by blast
  next
    case False
    then have "insert_js compare_startedAt x ((l # L) @ u # T) = (l # L') @ u # T"
      using L'(1) by simp
    moreover have "set (l # L') = insert x (set (l # L))" using L'(2) by auto
    ultimately show ?thesis by blast
  qed
qed

lemma sort_js_blocked:
  "startedAt u = None \<Longrightarrow>
     \<exists>L. sort_js compare_startedAt (xs @ u # rest) = L @ u # sort_js compare_startedAt rest \<and>
         set L = set xs"
proof (induction xs)
  case Nil
  then show ?case by (simp add: insert_js_undefined)
next
  case (Cons x xs)
  from Cons.IH[OF Cons.prems] obtain L where
    L: "sort_js compare_startedAt (xs @ u # rest) = L @ u # sort_js compare_startedAt rest"
      "set L = set xs"
    by blast
  from insert_js_blocked[OF Cons.prems, of x L "sort_js compare_startedAt rest"] obtain L' where
    "insert_js compare_startedAt x (L @ u # sort_js compare_startedAt rest) =
       L' @ u # sort_js compare_startedAt rest" "set L' = insert x (set L)"
    by blast
  then show ?case using L by auto
qed

lemma sample_run_history:
  "\<exists>u. jobHistory (snd (process (sample_env []) fresh_world single_job full_history)) =
          tl full_history @ [(''job_1730000000000_i'', u)] \<and> startedAt u = None"
proof -
  obtain startTime w1 where
    start: "process_start (sample_env []) fresh_world single_job =
      (''job_1730000000000_i'', startTime, w1)"
    and h1: "jobHistory w1 =
      [(''job_1730000000000_i'',
        \<lparr>id_job = ''job_1730000000000_i'', type_job = job_type single_job,
         status = ''processing'', startedAt = Some 1730000002000, completedAt = None,
         failedAt = None, duration = None, result = None, error = None,
         payload_job = Some (job_payload single_job)\<rparr>)]"
    by (rule sample_start)
  let ?w2 = "w1\<lparr>requests := requests w1 @
        [(OS_BASE_URL (sample_env []) @ ''/api/os/enrich'',
          JObj [(''leadId'', JStr ''L1''), (''tenantId'', JStr ''T1''),
                (''source'', JStr ''worker-single'')])]\<rparr>"
  have inv: "invoke (sample_env []) w1 EnrichmentSingle (job_payload single_job)
      ''job_1730000000000_i'' =
     (Awaited (Inr (JObj [(''leadId'', JStr ''L1''), (''score'', JNum 87)])), ?w2)"
    using single_job_invoke[of "[]" w1] by simp
  have fresh: "''job_1730000000000_i'' \<notin> set (Map_keys full_history)"
    by (auto simp: full_history_keys sample_id_def Cons_replicate_eq)
  have H: "recordJobs (jobHistory ?w2) full_history = full_history"
    using recordJobs_sample[OF fresh] h1 by simp
  have gone: "Map_get full_history ''job_1730000000000_i'' = None"
    using fresh by (simp add: Map_get_None_iff)
  show ?thesis
    using terminal_write[OF fresh_world_size start single_job_handler inv,
        of full_history] H gone
    by simp
qed

lemma tl_tl_full_history:
  "tl (tl full_history) = map (\<lambda>i. (sample_id i, sample_record i)) [2..<100]"
proof -
  have "[0..<100] = 0 # 1 # [2..<100]"
    by (simp add: upt_rec)
  then show ?thesis by (simp add: full_history_def)
qed

lemma evicted_history_eq:
  "\<exists>u. evicted_history =
          map (\<lambda>i. (sample_id i, sample_record i)) [2..<100] @
            [(''job_1730000000000_i'', u), (sample_id 5000, sample_record 5000)] \<and>
        startedAt u = None"
proof -
  obtain u where
    run: "jobHistory (snd (process (sample_env []) fresh_world single_job full_history)) =
          tl full_history @ [(''job_1730000000000_i'', u)]"
    and u: "startedAt u = None"
    using sample_run_history by blast
  let ?h = "tl full_history @ [(''job_1730000000000_i'', u)]"
  have ne: "full_history \<noteq> []" by (simp add: full_history_def)
  have keys: "Map_keys ?h = map sample_id [1..<100] @ [''job_1730000000000_i'']"
  proof -
    have "[0..<100] = 0 # [1..<100]" by (simp add: upt_rec)
    then show ?thesis by (simp add: full_history_def Map_keys_def comp_def)
  qed
  have "sample_id 5000 \<noteq> sample_id x" if "x < 100" for x
    using that injD[OF inj_sample_id, of 5000 x] by auto
  then have a: "sample_id 5000 \<notin> set (map sample_id [1..<100])" by (simp add: image_iff)
  have b: "sample_id 5000 \<noteq> ''job_1730000000000_i''"
  proof
    assume "sample_id 5000 = ''job_1730000000000_i''"
    then have "length (sample_id 5000) = length ''job_1730000000000_i''" by simp
    then show False by (simp add: sample_id_def)
  qed
  have nk: "sample_id 5000 \<notin> set (Map_keys ?h)" using a b by (simp add: keys)
  have full: "Map_size ?h = MAX_HISTORY"
    using ne by (simp add: Map_size_def MAX_HISTORY_def full_history_def)
  have "evicted_history = tl ?h @ [(sample_id 5000, sample_record 5000)]"
    using recordJob_new_full[OF nk full] run by (simp add: evicted_history_def)
  also have "tl ?h = tl (tl full_history) @ [(''job_1730000000000_i'', u)]"
    by (simp add: full_history_def upt_rec)
  finally show ?thesis using u by (auto simp: tl_tl_full_history)
qed

lemma getRecentJobs_negative_limit: "getRecentJobs [(sample_id 0, sample_record 0), (sample_id 1, sample_record 1)] (- 1)
   = [sample_record 1]"
  by (simp add: getRecentJobs_def slice0_def Map_values_def sample_record_def
      SortCompare_def compare_startedAt_def)

lemma sample_record_in: "sample_record 2 \<in> set (map sample_record [2..<100])"
proof -
  have "sample_record 2 \<in> sample_record ` set [2..<100]" by (rule imageI) simp
  then show ?thesis by (simp only: set_map)
qed

lemma evicted_values:
  "\<exists>u. Map_values evicted_history = map sample_record [2..<100] @ u # [sample_record 5000] \<and>
        startedAt u = None"
proof -
  obtain u where
    eh: "evicted_history =
          map (\<lambda>i. (sample_id i, sample_record i)) [2..<100] @
            [(''job_1730000000000_i'', u), (sample_id 5000, sample_record 5000)]"
    and u: "startedAt u = None"
    using evicted_history_eq by blast
  have "Map_values evicted_history =
      map sample_record [2..<100] @ u # [sample_record 5000]"
    unfolding eh Map_values_def by (simp only: map_append map_map comp_def snd_conv list.map)
  then show ?thesis using u by blast
qed

lemma evicted_recent:
  "\<exists>L u. getRecentJobs evicted_history 100 = L @ [u, sample_record 5000] \<and>
         sample_record 2 \<in> set L"
proof -
  obtain u where
    vals: "Map_values evicted_history = map sample_record [2..<100] @ u # [sample_record 5000]"
    and u: "startedAt u = None"
    using evicted_values by blast
  obtain L where
    L: "sort_js compare_startedAt (map sample_record [2..<100] @ u # [sample_record 5000]) =
          L @ u # sort_js compare_startedAt [sample_record 5000]"
    and sL: "set L = set (map sample_record [2..<100])"
    using sort_js_blocked[OF u, of "map sample_record [2..<100]" "[sample_record 5000]"]
    by blast
  have one: "sort_js compare_startedAt [sample_record 5000] = [sample_record 5000]"
    by (simp only: sort_js.simps insert_js.simps)
  have srt: "sort_js compare_startedAt (Map_values evicted_history) = L @ [u, sample_record 5000]"
    unfolding vals L one ..
  have "length (sort_js compare_startedAt (Map_values evicted_history)) =
      length (map sample_record [2..<100] @ u # [sample_record 5000])"
    unfolding vals by (rule length_sort_js)
  also have "\<dots> = 100" by simp
  finally have len: "length (L @ [u, sample_record 5000]) = 100" unfolding srt .
  have "getRecentJobs evicted_history 100 = take 100 (L @ [u, sample_record 5000])"
    unfolding getRecentJobs_def slice0_def srt by simp
  also have "\<dots> = L @ [u, sample_record 5000]"
    using len by simp
  finally show ?thesis using sample_record_in sL by blast
qed

subsection \<open>An unknown job type\<close>

text \<open>
  For a type that is found neither in the table nor in \<^verbatim>\<open>Object.prototype\<close> the
  dispatcher throws \<^verbatim>\<open>Unknown job type\<close> with the type in the message, after writing
  the failed record with \<^verbatim>\<open>failedAt\<close> and \<^verbatim>\<open>duration\<close>.
\<close>

lemma process_unknown_type:
  assumes sz: "Map_size (jobHistory w) \<le> MAX_HISTORY"
    and none: "handlers_get (job_type jb) = None"
  shows "fst (process e w jb foreign) = Inl (Error (''Unknown job type: '' @ job_type jb)) \<and>
     (\<exists>r t d. getStatus (jobHistory (snd (process e w jb foreign))) (generated_id e w) = Inr r \<and>
        status r = ''failed'' \<and> failedAt r = Some t \<and> duration r = Some d \<and>
        error r = Some (''Unknown job type: '' @ job_type jb))"
proof -
  obtain jobId startTime w1 where start: "process_start e w jb = (jobId, startTime, w1)"
    by (metis prod_cases3)
  have id: "jobId = generated_id e w" using process_start_facts(1)[OF start] .
  have sz1: "Map_size (jobHistory w1) \<le> MAX_HISTORY"
    using process_start_facts(4)[OF start sz] .
  show ?thesis
    using process_unknown[OF start none, of foreign]
      process_failed_facts[OF sz1, of e jb jobId startTime
        "Error (''Unknown job type: '' @ job_type jb)"] id
    by (simp add: getStatus_def)
qed

subsection \<open>Capacity and eviction\<close>

text \<open>
  Claim C2. After any sequence of \<^verbatim>\<open>recordJob\<close> calls on the empty map the history
  holds at most \<open>MAX_HISTORY\<close> records, which is 100. One call on a history within the bound keeps the
  bound; with a new key on a full history it removes exactly the first entry, the key
  inserted longest ago among those present, and appends the new one; with a new key on a
  history that has room it only appends; with a key that is present it replaces the value
  in place: the size and the order of the keys stay as they were, nothing is evicted.
\<close>

theorem recordJob_capacity:
  "MAX_HISTORY = 100 \<and>
   Map_size (recordJobs [] ws) \<le> MAX_HISTORY \<and>
   (Map_size h \<le> MAX_HISTORY \<longrightarrow>
      Map_size (recordJob h k d) \<le> MAX_HISTORY \<and>
      (k \<notin> set (Map_keys h) \<and> Map_size h = MAX_HISTORY \<longrightarrow>
         recordJob h k d = tl h @ [(k, d)]) \<and>
      (k \<notin> set (Map_keys h) \<and> Map_size h < MAX_HISTORY \<longrightarrow>
         recordJob h k d = h @ [(k, d)]) \<and>
      (k \<in> set (Map_keys h) \<longrightarrow>
         Map_size (recordJob h k d) = Map_size h \<and>
         Map_keys (recordJob h k d) = Map_keys h \<and>
         Map_get (recordJob h k d) k = Some d))"
proof -
  have reach: "Map_size (recordJobs [] ws) \<le> MAX_HISTORY"
    by (rule recordJobs_size) (rule Map_size_empty)
  have step: "Map_size (recordJob h k d) \<le> MAX_HISTORY" if "Map_size h \<le> MAX_HISTORY"
    using that by (rule recordJob_size)
  have over: "Map_size (recordJob h k d) = Map_size h \<and>
      Map_keys (recordJob h k d) = Map_keys h \<and> Map_get (recordJob h k d) k = Some d"
    if "Map_size h \<le> MAX_HISTORY" "k \<in> set (Map_keys h)"
    using that by (simp add: recordJob_present Map_size_set Map_keys_set_present Map_get_set)
  have cap: "MAX_HISTORY = 100" by (simp add: MAX_HISTORY_def)
  show ?thesis
    using cap reach step over recordJob_new_full[of k h d] recordJob_new_room[of k h d]
    by blast
qed

theorem recordJob_capacity_witness:
  "Map_size full_history \<le> MAX_HISTORY \<and>
   ''new'' \<notin> set (Map_keys full_history) \<and> Map_size full_history = MAX_HISTORY \<and>
   recordJob full_history ''new'' (sample_record 100)
     = tl full_history @ [(''new'', sample_record 100)] \<and>
   sample_id 5 \<in> set (Map_keys full_history) \<and>
   Map_size (recordJob full_history (sample_id 5) (sample_record 100)) = Map_size full_history \<and>
   Map_keys (recordJob full_history (sample_id 5) (sample_record 100)) = Map_keys full_history \<and>
   Map_size ([] :: history) \<le> MAX_HISTORY \<and> ''new'' \<notin> set (Map_keys ([] :: history)) \<and>
   Map_size ([] :: history) < MAX_HISTORY \<and>
   recordJob [] ''new'' (sample_record 100) = [(''new'', sample_record 100)]"
proof -
  note evict = recordJob_capacity[of "[]" full_history "''new''" "sample_record 100"]
  note overwrite = recordJob_capacity[of "[]" full_history "sample_id 5" "sample_record 100"]
  note append = recordJob_capacity[of "[]" "[]" "''new''" "sample_record 100"]
  have sz: "Map_size full_history \<le> MAX_HISTORY" using full_history_size by simp
  have e0: "Map_size ([] :: history) \<le> MAX_HISTORY" by (rule Map_size_empty)
  have e1: "Map_size ([] :: history) < MAX_HISTORY" by (simp add: Map_size_def MAX_HISTORY_def)
  have e2: "''new'' \<notin> set (Map_keys ([] :: history))" by (simp add: Map_keys_def)
  have "recordJob [] ''new'' (sample_record 100) = [] @ [(''new'', sample_record 100)]"
    using append e0 e1 e2 by blast
  then have e3: "recordJob [] ''new'' (sample_record 100) = [(''new'', sample_record 100)]"
    by simp
  show ?thesis
    using evict overwrite sz e0 e1 e2 e3 new_not_in_full five_in_full full_history_size
    by blast
qed

subsection \<open>Lookup\<close>

text \<open>
  Claim C8. \<^verbatim>\<open>getStatus\<close> on an id that is not a key of the history throws the error
  \<^verbatim>\<open>Job not found\<close>, and the key that a \<^verbatim>\<open>recordJob\<close> call evicts is such an id
  afterwards.
\<close>

theorem getStatus_absent:
  "(jobId \<notin> set (Map_keys h) \<longrightarrow> getStatus h jobId = Inl (Error ''Job not found'')) \<and>
   (distinct (Map_keys h) \<and> Map_size h = MAX_HISTORY \<and> k \<notin> set (Map_keys h) \<longrightarrow>
      getStatus (recordJob h k d) (fst (hd h)) = Inl (Error ''Job not found''))"
proof -
  have a: "getStatus m j = Inl (Error ''Job not found'')" if "j \<notin> set (Map_keys m)" for m j
    using that Map_get_None_iff[of m j] by (simp add: getStatus_def)
  have b: "fst (hd h) \<notin> set (Map_keys (recordJob h k d))"
    if dk: "distinct (Map_keys h)" and sz: "Map_size h = MAX_HISTORY"
      and nk: "k \<notin> set (Map_keys h)"
  proof -
    obtain p ps where h: "h = p # ps"
      using sz by (cases h) (auto simp: Map_size_def MAX_HISTORY_def)
    have "recordJob h k d = ps @ [(k, d)]"
      using recordJob_new_full[OF nk sz] h by simp
    then show ?thesis using dk nk h by (auto simp: Map_keys_def)
  qed
  show ?thesis using a b by blast
qed

theorem getStatus_absent_witness:
  "''new'' \<notin> set (Map_keys full_history) \<and>
   getStatus full_history ''new'' = Inl (Error ''Job not found'') \<and>
   distinct (Map_keys full_history) \<and> Map_size full_history = MAX_HISTORY \<and>
   getStatus (recordJob full_history ''new'' (sample_record 100)) (sample_id 0)
     = Inl (Error ''Job not found'')"
  using getStatus_absent[of "''new''" full_history "''new''" "sample_record 100"]
    new_not_in_full full_history_distinct full_history_size full_history_hd
  by simp

subsection \<open>Batch handlers\<close>

text \<open>
  Claim C3. When \<^verbatim>\<open>payload.leadIds\<close> is an array, \<^verbatim>\<open>handleEnrichmentBatch\<close> and
  \<^verbatim>\<open>handleScoringBatch\<close> return, they do not throw, whatever the downstream service
  answers; \<^verbatim>\<open>processed\<close> is the length of the array; \<^verbatim>\<open>results\<close> has one entry for
  each lead id, in order: the entry \<^verbatim>\<open>{leadId, status: 'failed', error: message}\<close> when
  the request for that lead id was rejected with that message, and the success entry
  with the response otherwise.
\<close>

theorem batch_handlers_isolate_failures:
  assumes "get_prop payload ''leadIds'' = JArr xs"
  shows "\<exists>rs ss w1 w2.
     handleEnrichmentBatch e w payload jobId =
       (Inr (JObj [(''processed'', JNum (of_nat (length xs))), (''results'', JArr rs)]), w1) \<and>
     length rs = length xs \<and>
     (\<forall>i<length xs.
        rs ! i =
          (case respond e
                  (requests w @
                     map (enrich_request e (get_prop payload ''tenantId'')) (take i xs))
                  (enrich_request e (get_prop payload ''tenantId'') (xs ! i)) of
             Inl m \<Rightarrow>
               JObj [(''leadId'', xs ! i), (''status'', JStr ''failed''), (''error'', JStr m)]
           | Inr data \<Rightarrow>
               JObj [(''leadId'', xs ! i), (''status'', JStr ''enriched''), (''data'', data)])) \<and>
     handleScoringBatch e w payload jobId =
       (Inr (JObj [(''processed'', JNum (of_nat (length xs))), (''results'', JArr ss)]), w2) \<and>
     length ss = length xs \<and>
     (\<forall>i<length xs.
        ss ! i =
          (case respond e
                  (requests w @
                     map (score_request e (get_prop payload ''tenantId'')
                            (get_prop payload ''vertical'')) (take i xs))
                  (score_request e (get_prop payload ''tenantId'')
                     (get_prop payload ''vertical'') (xs ! i)) of
             Inl m \<Rightarrow>
               JObj [(''leadId'', xs ! i), (''status'', JStr ''failed''), (''error'', JStr m)]
           | Inr data \<Rightarrow>
               JObj [(''leadId'', xs ! i), (''status'', JStr ''scored''),
                     (''score'', opt_prop data ''score'')]))"
  using handleEnrichmentBatch_array[OF assms, of e w jobId]
    handleScoringBatch_array[OF assms, of e w jobId]
  by (simp add: length_enrich_entries length_score_entries nth_enrich_entries nth_score_entries)

theorem batch_handlers_isolate_failures_witness:
  "get_prop batch_payload ''leadIds'' = JArr [JStr ''L1'', JStr ''L2''] \<and>
   (\<exists>w1. handleEnrichmentBatch (sample_env [''L2'']) fresh_world batch_payload ''job_1'' =
      (Inr (JObj [(''processed'', JNum 2),
                  (''results'',
                     JArr [JObj [(''leadId'', JStr ''L1''), (''status'', JStr ''enriched''),
                                 (''data'', JObj [(''leadId'', JStr ''L1''), (''score'', JNum 87)])],
                           JObj [(''leadId'', JStr ''L2''), (''status'', JStr ''failed''),
                                 (''error'', JStr ''Request failed with status code 500'')]])]),
       w1)) \<and>
   (\<exists>w2. handleScoringBatch (sample_env [''L2'']) fresh_world batch_payload ''job_1'' =
      (Inr (JObj [(''processed'', JNum 2),
                  (''results'',
                     JArr [JObj [(''leadId'', JStr ''L1''), (''status'', JStr ''scored''),
                                 (''score'', JNum 87)],
                           JObj [(''leadId'', JStr ''L2''), (''status'', JStr ''failed''),
                                 (''error'', JStr ''Request failed with status code 500'')]])]),
       w2))"
proof -
  have hyp: "get_prop batch_payload ''leadIds'' = JArr [JStr ''L1'', JStr ''L2'']"
    by (simp add: batch_payload_def)
  have two: "rs = [rs ! 0, rs ! Suc 0]" if "length rs = Suc (Suc 0)" for rs :: "jsval list"
    using that by (cases rs; cases "tl rs") auto
  from batch_handlers_isolate_failures[OF hyp, of "sample_env [''L2'']" fresh_world "''job_1''"]
  obtain rs ss w1 w2 where
    e: "handleEnrichmentBatch (sample_env [''L2'']) fresh_world batch_payload ''job_1'' =
          (Inr (JObj [(''processed'', JNum 2), (''results'', JArr rs)]), w1)"
    and lr: "length rs = Suc (Suc 0)"
    and r0: "rs ! 0 = JObj [(''leadId'', JStr ''L1''), (''status'', JStr ''enriched''),
                           (''data'', JObj [(''leadId'', JStr ''L1''), (''score'', JNum 87)])]"
    and r1: "rs ! Suc 0 = JObj [(''leadId'', JStr ''L2''), (''status'', JStr ''failed''),
                           (''error'', JStr ''Request failed with status code 500'')]"
    and s: "handleScoringBatch (sample_env [''L2'']) fresh_world batch_payload ''job_1'' =
          (Inr (JObj [(''processed'', JNum 2), (''results'', JArr ss)]), w2)"
    and ls: "length ss = Suc (Suc 0)"
    and s0: "ss ! 0 = JObj [(''leadId'', JStr ''L1''), (''status'', JStr ''scored''),
                           (''score'', JNum 87)]"
    and s1: "ss ! Suc 0 = JObj [(''leadId'', JStr ''L2''), (''status'', JStr ''failed''),
                           (''error'', JStr ''Request failed with status code 500'')]"
    by (simp add: All_less_Suc enrich_request_def score_request_def sample_env_def
        sample_respond_def batch_payload_def opt_prop_def nullish_def) blast
  have "rs = [rs ! 0, rs ! Suc 0]" "ss = [ss ! 0, ss ! Suc 0]" using two lr ls by blast+
  then show ?thesis using hyp e s r0 r1 s0 s1 by auto
qed

text \<open>
  Claim C10. For a payload whose \<^verbatim>\<open>leadIds\<close> is \<^verbatim>\<open>undefined\<close> or \<^verbatim>\<open>null\<close>, both batch
  handlers return \<^verbatim>\<open>{processed: 0, results: []}\<close> and leave the world as it was: no
  request is sent. The payload is a value that has properties to read, that is, not itself
  \<^verbatim>\<open>undefined\<close> or \<^verbatim>\<open>null\<close>, on which the destructuring throws before \<^verbatim>\<open>leadIds\<close>
  exists (\<open>batch_nullish_payload\<close>).
\<close>

theorem batch_handlers_absent_leadIds:
  assumes "\<not> nullish payload" and "nullish (get_prop payload ''leadIds'')"
  shows "handleEnrichmentBatch e w payload jobId =
           (Inr (JObj [(''processed'', JNum 0), (''results'', JArr [])]), w) \<and>
         handleScoringBatch e w payload jobId =
           (Inr (JObj [(''processed'', JNum 0), (''results'', JArr [])]), w)"
  using batch_absent[OF assms] by simp

theorem batch_handlers_absent_leadIds_witness:
  "\<not> nullish (JObj [(''tenantId'', JStr ''T1'')]) \<and>
   nullish (get_prop (JObj [(''tenantId'', JStr ''T1'')]) ''leadIds'') \<and>
   handleEnrichmentBatch (sample_env []) fresh_world (JObj [(''tenantId'', JStr ''T1'')]) ''job_1'' =
     (Inr (JObj [(''processed'', JNum 0), (''results'', JArr [])]), fresh_world) \<and>
   \<not> nullish (JObj [(''leadIds'', JNull)]) \<and>
   nullish (get_prop (JObj [(''leadIds'', JNull)]) ''leadIds'') \<and>
   handleScoringBatch (sample_env []) fresh_world (JObj [(''leadIds'', JNull)]) ''job_1'' =
     (Inr (JObj [(''processed'', JNum 0), (''results'', JArr [])]), fresh_world)"
  using batch_handlers_absent_leadIds[of "JObj [(''tenantId'', JStr ''T1'')]" "sample_env []"
      fresh_world "''job_1''"]
    batch_handlers_absent_leadIds[of "JObj [(''leadIds'', JNull)]" "sample_env []"
      fresh_world "''job_1''"]
  by (simp add: nullish_def)

subsection \<open>The dispatcher\<close>

text \<open>
  Claim C5, as it is written, fails on the duration: it is the difference of two readings
  of the wall clock, \<^verbatim>\<open>Date.now()\<close> before the handler and after it, and the wall clock
  can be set back in between. With the clock of \<open>stepped_back_env\<close> the sample job
  completes with the duration \<open>-8000\<close>.
\<close>

theorem process_duration_counterexample:
  "fst (process stepped_back_env fresh_world single_job []) =
     Inr \<lparr>ret_jobId = ''job_1730000000000_i'', ret_status = ''completed'',
          ret_duration = - 8000,
          ret_result = JObj [(''leadId'', JStr ''L1''), (''score'', JNum 87)]\<rparr> \<and>
   getStatus (jobHistory (snd (process stepped_back_env fresh_world single_job [])))
       ''job_1730000000000_i'' =
     Inr \<lparr>id_job = ''job_1730000000000_i'', type_job = ''enrichment.single'',
          status = ''completed'', startedAt = Some 1730000002000,
          completedAt = Some 1729999994000, failedAt = None, duration = Some (- 8000),
          result = Some (JObj [(''leadId'', JStr ''L1''), (''score'', JNum 87)]),
          error = None, payload_job = None\<rparr>"
proof -
  obtain w1 where
    start: "process_start stepped_back_env fresh_world single_job =
      (''job_1730000000000_i'', 1730000001000, w1)"
    and cr: "clockReads w1 = 3"
    and h1: "jobHistory w1 =
      [(''job_1730000000000_i'',
        \<lparr>id_job = ''job_1730000000000_i'', type_job = job_type single_job,
         status = ''processing'', startedAt = Some 1730000002000, completedAt = None,
         failedAt = None, duration = None, result = None, error = None,
         payload_job = Some (job_payload single_job)\<rparr>)]"
    by (rule stepped_back_start)
  let ?w2 = "w1\<lparr>requests := requests w1 @
        [(OS_BASE_URL stepped_back_env @ ''/api/os/enrich'',
          JObj [(''leadId'', JStr ''L1''), (''tenantId'', JStr ''T1''),
                (''source'', JStr ''worker-single'')])]\<rparr>"
  have inv: "invoke stepped_back_env w1 EnrichmentSingle (job_payload single_job)
      ''job_1730000000000_i'' =
     (Awaited (Inr (JObj [(''leadId'', JStr ''L1''), (''score'', JNum 87)])), ?w2)"
    by (simp add: handleEnrichmentSingle_def destructure_def template_def nullish_def
        single_job_def axios_post_def stepped_back_env_def sample_env_def sample_respond_def
        Let_def)
  have run: "process stepped_back_env fresh_world single_job [] =
      process_completed stepped_back_env ?w2 single_job ''job_1730000000000_i'' 1730000001000
        (JObj [(''leadId'', JStr ''L1''), (''score'', JNum 87)])"
    using process_awaited[OF start single_job_handler inv, of "[]"]
    by (simp add: recordJobs_def)
  have sz2: "Map_size (jobHistory ?w2) \<le> MAX_HISTORY"
    using h1 by (simp add: Map_size_def MAX_HISTORY_def)
  have ty: "job_type single_job = ''enrichment.single''" by (simp add: single_job_def)
  show ?thesis
    using process_completed_facts[OF sz2, of stepped_back_env single_job
        "''job_1730000000000_i''" 1730000001000
        "JObj [(''leadId'', JStr ''L1''), (''score'', JNum 87)]"] run cr h1 ty
    by (simp add: getStatus_def stored_startedAt_def)
       (simp add: stepped_back_env_def sample_env_def)
qed

text \<open>
  Claim C5, amended. When the handler of the job returns (its promise resolves with
  \<open>res\<close>), then after \<^verbatim>\<open>process\<close>, whatever other calls wrote in between,
  \<^verbatim>\<open>getStatus\<close> of the job's id returns a record with status \<^verbatim>\<open>completed\<close>, a
  \<^verbatim>\<open>completedAt\<close>, the handler's result, and as duration the clock reading after the
  handler minus the reading at the start; the duration is not negative when the clock does
  not run backwards. The history is within its bound when \<^verbatim>\<open>process\<close> starts, as it
  always is.
\<close>

theorem process_success_recorded:
  assumes sz: "Map_size (jobHistory w) \<le> MAX_HISTORY"
    and start: "process_start e w jb = (jobId, startTime, w1)"
    and tbl: "handlers_get (job_type jb) = Some h"
    and ok: "invoke e w1 h (job_payload jb) jobId = (Awaited (Inr res), w2)"
  shows "\<exists>r t d. getStatus (jobHistory (snd (process e w jb foreign))) jobId = Inr r \<and>
           status r = ''completed'' \<and> completedAt r = Some t \<and> result r = Some res \<and>
           duration r = Some d \<and> d = timeSrc e (clockReads w2) - startTime \<and>
           (mono (timeSrc e) \<longrightarrow> 0 \<le> d)"
proof -
  let ?w3 = "w2\<lparr>jobHistory := recordJobs (jobHistory w2) foreign\<rparr>"
  have run: "process e w jb foreign = process_completed e ?w3 jb jobId startTime res"
    using process_awaited[OF start tbl ok] by simp
  have sz3: "Map_size (jobHistory ?w3) \<le> MAX_HISTORY"
    using suspended_world(2)[OF sz start ok] by simp
  have "0 \<le> timeSrc e (clockReads w2) - startTime" if "mono (timeSrc e)"
  proof -
    have "timeSrc e (Suc (clockReads w)) \<le> timeSrc e (clockReads w2)"
      using suspended_world(3)[OF sz start ok] that by (simp add: monoD)
    then show ?thesis using process_start_facts(2)[OF start] by simp
  qed
  then show ?thesis
    using process_completed_facts(2)[OF sz3, of e jb jobId startTime res] run
    by (simp add: getStatus_def)
qed

theorem process_success_recorded_witness:
  "Map_size (jobHistory fresh_world) \<le> MAX_HISTORY \<and> mono (timeSrc (sample_env [])) \<and>
   handlers_get (job_type single_job) = Some EnrichmentSingle \<and>
   (\<exists>r t. getStatus (jobHistory (snd (process (sample_env []) fresh_world single_job [])))
                ''job_1730000000000_i'' = Inr r \<and>
      status r = ''completed'' \<and> completedAt r = Some t \<and>
      result r = Some (JObj [(''leadId'', JStr ''L1''), (''score'', JNum 87)]) \<and>
      duration r = Some 2000) \<and> (0::int) \<le> 2000"
proof -
  obtain startTime w1 where
    start: "process_start (sample_env []) fresh_world single_job =
      (''job_1730000000000_i'', startTime, w1)"
    and st: "startTime = 1730000001000" and cr: "clockReads w1 = 3"
    by (rule sample_start)
  let ?w2 = "w1\<lparr>requests := requests w1 @
        [(OS_BASE_URL (sample_env []) @ ''/api/os/enrich'',
          JObj [(''leadId'', JStr ''L1''), (''tenantId'', JStr ''T1''),
                (''source'', JStr ''worker-single'')])]\<rparr>"
  have inv: "invoke (sample_env []) w1 EnrichmentSingle (job_payload single_job)
      ''job_1730000000000_i'' =
     (Awaited (Inr (JObj [(''leadId'', JStr ''L1''), (''score'', JNum 87)])), ?w2)"
    using single_job_invoke[of "[]" w1] by simp
  have t: "timeSrc (sample_env []) (clockReads ?w2) - startTime = 2000"
    using st cr by (simp add: sample_env_def)
  from process_success_recorded[OF fresh_world_size start single_job_handler inv, of "[]"]
  obtain r t' d where
    "getStatus (jobHistory (snd (process (sample_env []) fresh_world single_job [])))
        ''job_1730000000000_i'' = Inr r"
    "status r = ''completed''" "completedAt r = Some t'"
    "result r = Some (JObj [(''leadId'', JStr ''L1''), (''score'', JNum 87)])"
    "duration r = Some d" "d = timeSrc (sample_env []) (clockReads ?w2) - startTime"
    "mono (timeSrc (sample_env [])) \<longrightarrow> 0 \<le> d"
    by blast
  then show ?thesis
    using t fresh_world_size sample_clock_mono single_job_handler by auto
qed

text \<open>
  Claim C6. \<^verbatim>\<open>process\<close> returns a value only on success, and the value is
  \<^verbatim>\<open>{jobId, status: 'completed', duration, result}\<close>: \<^verbatim>\<open>jobId\<close> is the identifier
  generated at the start, \<^verbatim>\<open>duration\<close> the clock reading after the handler minus the
  start time, \<^verbatim>\<open>result\<close> the handler's result.
\<close>

theorem process_success_returns:
  assumes start: "process_start e w jb = (jobId, startTime, w1)"
  shows "jobId = generated_id e w \<and>
         (\<forall>r. fst (process e w jb foreign) = Inr r \<longrightarrow>
            ret_jobId r = jobId \<and> ret_status r = ''completed'') \<and>
         (\<forall>h res w2. handlers_get (job_type jb) = Some h \<and>
            invoke e w1 h (job_payload jb) jobId = (Awaited (Inr res), w2) \<longrightarrow>
            fst (process e w jb foreign) =
              Inr \<lparr>ret_jobId = jobId, ret_status = ''completed'',
                   ret_duration = timeSrc e (clockReads w2) - startTime, ret_result = res\<rparr>)"
proof -
  have a: "jobId = generated_id e w" using process_start_facts(1)[OF start] .
  have b: "ret_jobId r = jobId \<and> ret_status r = ''completed''"
    if "fst (process e w jb foreign) = Inr r" for r
    using that start
    by (auto simp: process_def Let_def process_failed_def process_completed_def Date_now_def
        split: option.splits prod.splits invocation.splits sum.splits)
  have c: "fst (process e w jb foreign) =
     Inr \<lparr>ret_jobId = jobId, ret_status = ''completed'',
          ret_duration = timeSrc e (clockReads w2) - startTime, ret_result = res\<rparr>"
    if "handlers_get (job_type jb) = Some h"
      "invoke e w1 h (job_payload jb) jobId = (Awaited (Inr res), w2)" for h res w2
    using process_awaited[OF start that, of foreign]
    by (simp add: process_completed_def Date_now_def Let_def)
  show ?thesis using a b c by blast
qed

theorem process_success_returns_witness:
  "generated_id (sample_env []) fresh_world = ''job_1730000000000_i'' \<and>
   handlers_get (job_type single_job) = Some EnrichmentSingle \<and>
   fst (process (sample_env []) fresh_world single_job []) =
     Inr \<lparr>ret_jobId = ''job_1730000000000_i'', ret_status = ''completed'', ret_duration = 2000,
          ret_result = JObj [(''leadId'', JStr ''L1''), (''score'', JNum 87)]\<rparr>"
proof -
  obtain startTime w1 where
    start: "process_start (sample_env []) fresh_world single_job =
      (''job_1730000000000_i'', startTime, w1)"
    and st: "startTime = 1730000001000" and cr: "clockReads w1 = 3"
    by (rule sample_start)
  let ?w2 = "w1\<lparr>requests := requests w1 @
        [(OS_BASE_URL (sample_env []) @ ''/api/os/enrich'',
          JObj [(''leadId'', JStr ''L1''), (''tenantId'', JStr ''T1''),
                (''source'', JStr ''worker-single'')])]\<rparr>"
  have inv: "invoke (sample_env []) w1 EnrichmentSingle (job_payload single_job)
      ''job_1730000000000_i'' =
     (Awaited (Inr (JObj [(''leadId'', JStr ''L1''), (''score'', JNum 87)])), ?w2)"
    using single_job_invoke[of "[]" w1] by simp
  have t: "timeSrc (sample_env []) (clockReads ?w2) - startTime = 2000"
    using st cr by (simp add: sample_env_def)
  from process_success_returns[OF start, of "[]"] single_job_handler inv
  have "fst (process (sample_env []) fresh_world single_job []) =
     Inr \<lparr>ret_jobId = ''job_1730000000000_i'', ret_status = ''completed'',
          ret_duration = timeSrc (sample_env []) (clockReads ?w2) - startTime,
          ret_result = JObj [(''leadId'', JStr ''L1''), (''score'', JNum 87)]\<rparr>"
    by blast
  then show ?thesis
    using t sample_generated_id single_job_handler by simp
qed

text \<open>
  Claim C4. When the handler of the job throws \<open>err\<close>, at the call or through its
  promise, \<^verbatim>\<open>process\<close> throws the same \<open>err\<close>, and the world it leaves already holds the
  failed record: \<^verbatim>\<open>getStatus\<close> of the job's id returns a record with status
  \<^verbatim>\<open>failed\<close>, a \<^verbatim>\<open>failedAt\<close> and the message of \<open>err\<close> as \<^verbatim>\<open>error\<close>.
\<close>

theorem process_failure_recorded:
  assumes sz: "Map_size (jobHistory w) \<le> MAX_HISTORY"
    and start: "process_start e w jb = (jobId, startTime, w1)"
    and tbl: "handlers_get (job_type jb) = Some h"
    and inv: "invoke e w1 h (job_payload jb) jobId = (iv, w2)"
    and raises: "iv = Thrown err \<or> iv = Awaited (Inl err)"
  shows "fst (process e w jb foreign) = Inl err \<and>
         (\<exists>r t. getStatus (jobHistory (snd (process e w jb foreign))) jobId = Inr r \<and>
            status r = ''failed'' \<and> failedAt r = Some t \<and> error r = Some (message err))"
proof -
  let ?w3 = "w2\<lparr>jobHistory := recordJobs (jobHistory w2) foreign\<rparr>"
  from raises show ?thesis
  proof (rule disjE)
    assume t: "iv = Thrown err"
    have run: "process e w jb foreign = process_failed e w2 jb jobId startTime err"
      using process_thrown[OF start tbl] inv t by simp
    show ?thesis
      using process_failed_facts[OF suspended_world(1)[OF sz start inv], of e jb jobId startTime err]
        run by (simp add: getStatus_def)
  next
    assume a: "iv = Awaited (Inl err)"
    have run: "process e w jb foreign = process_failed e ?w3 jb jobId startTime err"
      using process_awaited[OF start tbl, of "Inl err" w2] inv a by simp
    have sz3: "Map_size (jobHistory ?w3) \<le> MAX_HISTORY"
      using suspended_world(2)[OF sz start inv] by simp
    show ?thesis
      using process_failed_facts[OF sz3, of e jb jobId startTime err] run
      by (simp add: getStatus_def)
  qed
qed

theorem process_failure_recorded_witness:
  "Map_size (jobHistory fresh_world) \<le> MAX_HISTORY \<and>
   handlers_get (job_type single_job) = Some EnrichmentSingle \<and>
   fst (process (sample_env [''L1'']) fresh_world single_job []) =
     Inl (AxiosError ''Request failed with status code 500'') \<and>
   (\<exists>r t. getStatus (jobHistory (snd (process (sample_env [''L1'']) fresh_world single_job [])))
              ''job_1730000000000_i'' = Inr r \<and>
      status r = ''failed'' \<and> failedAt r = Some t \<and>
      error r = Some ''Request failed with status code 500'')"
proof -
  obtain startTime w1 where
    start: "process_start (sample_env [''L1'']) fresh_world single_job =
      (''job_1730000000000_i'', startTime, w1)"
    by (rule sample_start)
  have inv: "invoke (sample_env [''L1'']) w1 EnrichmentSingle (job_payload single_job)
      ''job_1730000000000_i'' =
     (Awaited (Inl (AxiosError ''Request failed with status code 500'')),
      w1\<lparr>requests := requests w1 @
        [(OS_BASE_URL (sample_env [''L1'']) @ ''/api/os/enrich'',
          JObj [(''leadId'', JStr ''L1''), (''tenantId'', JStr ''T1''),
                (''source'', JStr ''worker-single'')])]\<rparr>)"
    using single_job_invoke[of "[''L1'']" w1] by simp
  show ?thesis
    using process_failure_recorded[OF fresh_world_size start single_job_handler inv, of
        "AxiosError ''Request failed with status code 500''" "[]"]
      fresh_world_size single_job_handler
    by simp
qed



text \<open>
  Claim C1, at the job type \<^verbatim>\<open>toString\<close>, which the handler table does not have: the
  lookup finds \<^verbatim>\<open>Object.prototype.toString\<close>, the call returns a string, and the job
  is recorded and returned as completed; nothing is thrown.
\<close>

theorem process_toString_completes:
  "map_of handlers ''toString'' = None \<and>
   fst (process (sample_env []) fresh_world
          \<lparr>job_type = ''toString'', job_payload = JObj []\<rparr> []) =
     Inr \<lparr>ret_jobId = ''job_1730000000000_i'', ret_status = ''completed'', ret_duration = 2000,
          ret_result = JStr ''[object Undefined]''\<rparr> \<and>
   getStatus (jobHistory (snd (process (sample_env []) fresh_world
          \<lparr>job_type = ''toString'', job_payload = JObj []\<rparr> []))) ''job_1730000000000_i'' =
     Inr \<lparr>id_job = ''job_1730000000000_i'', type_job = ''toString'', status = ''completed'',
          startedAt = Some 1730000002000, completedAt = Some 1730000004000, failedAt = None,
          duration = Some 2000, result = Some (JStr ''[object Undefined]''), error = None,
          payload_job = None\<rparr>"
proof -
  let ?jb = "\<lparr>job_type = ''toString'', job_payload = JObj []\<rparr>"
  obtain startTime w1 where
    start: "process_start (sample_env []) fresh_world ?jb =
      (''job_1730000000000_i'', startTime, w1)"
    and st: "startTime = 1730000001000" and cr: "clockReads w1 = 3"
    and h1: "jobHistory w1 =
      [(''job_1730000000000_i'',
        \<lparr>id_job = ''job_1730000000000_i'', type_job = job_type ?jb,
         status = ''processing'', startedAt = Some 1730000002000, completedAt = None,
         failedAt = None, duration = None, result = None, error = None,
         payload_job = Some (job_payload ?jb)\<rparr>)]"
    by (rule sample_start)
  have own: "map_of handlers ''toString'' = None"
    by (simp add: handlers_def)
  have tbl: "handlers_get (job_type ?jb) = Some (Inherited P_toString)"
    by (simp add: handlers_get_def handlers_def Object_prototype_def)
  have inv: "invoke (sample_env []) w1 (Inherited P_toString) (job_payload ?jb)
      ''job_1730000000000_i'' = (Awaited (Inr (JStr ''[object Undefined]'')), w1)"
    by simp
  have run: "process (sample_env []) fresh_world ?jb [] =
      process_completed (sample_env []) w1 ?jb ''job_1730000000000_i'' startTime
        (JStr ''[object Undefined]'')"
    using process_awaited[OF start tbl inv, of "[]"] by (simp add: recordJobs_def)
  have sz1: "Map_size (jobHistory w1) \<le> MAX_HISTORY"
    using h1 by (simp add: Map_size_def MAX_HISTORY_def)
  show ?thesis
    using process_completed_facts[OF sz1, of "sample_env []" ?jb "''job_1730000000000_i''"
        startTime "JStr ''[object Undefined]''"] run own st cr h1
    by (simp add: getStatus_def stored_startedAt_def) (simp add: sample_env_def)
qed

subsection \<open>Recent jobs\<close>

text \<open>
  Claim C7, as it is written, fails in two places. \<^verbatim>\<open>slice(0, limit)\<close> with a negative
  \<open>limit\<close> drops records from the end instead of returning none: with two records
  and the limit \<open>-1\<close> one record is returned. And a record without \<^verbatim>\<open>startedAt\<close>
  (claim C9) compares as equal to every other record, so the sort cannot move a record
  across it: after the run \<open>evicted_history\<close> the job started last is returned last.
\<close>

theorem getRecentJobs_counterexample:
  "\<not> int (length (getRecentJobs
            [(sample_id 0, sample_record 0), (sample_id 1, sample_record 1)] (- 1))) \<le> - 1 \<and>
   \<not> ordered_desc (getRecentJobs evicted_history 100)"
proof
  show "\<not> int (length (getRecentJobs
            [(sample_id 0, sample_record 0), (sample_id 1, sample_record 1)] (- 1))) \<le> - 1"
    unfolding getRecentJobs_negative_limit by simp
next
  obtain L u where
    all: "getRecentJobs evicted_history 100 = L @ [u, sample_record 5000]"
    and two: "sample_record 2 \<in> set L"
    using evicted_recent by blast
  show "\<not> ordered_desc (getRecentJobs evicted_history 100)"
  proof
    assume "ordered_desc (getRecentJobs evicted_history 100)"
    then have "\<forall>x \<in> set L. \<forall>y \<in> set [u, sample_record 5000].
        (case (startedAt x, startedAt y) of (Some ta, Some tb) \<Rightarrow> tb \<le> ta | _ \<Rightarrow> True)"
      unfolding all ordered_desc_def sorted_wrt_append by blast
    then have "case (startedAt (sample_record 2), startedAt (sample_record 5000)) of
        (Some ta, Some tb) \<Rightarrow> tb \<le> ta | _ \<Rightarrow> True"
      using two by simp
    then show False by (simp add: sample_record_def)
  qed
qed

text \<open>
  Claim C7, amended. For a limit that is not negative and a history in which every record
  has a \<^verbatim>\<open>startedAt\<close>, \<^verbatim>\<open>getRecentJobs(limit)\<close> returns the first \<open>limit\<close> records of
  the history sorted by \<^verbatim>\<open>startedAt\<close> descending (all of them when there are fewer).
  On a history that contains four jobs with start times \<open>T1 < T2 < T3 < T4\<close>, in whatever
  order they were inserted, \<^verbatim>\<open>getRecentJobs(3)\<close> returns those of \<open>T4\<close>, \<open>T3\<close>, \<open>T2\<close>,
  in this order.
\<close>

theorem getRecentJobs_recent_first:
  "(0 \<le> limit \<and> (\<forall>r \<in> set (Map_values h). startedAt r \<noteq> None) \<longrightarrow>
      (\<exists>S. mset S = mset (Map_values h) \<and> ordered_desc S \<and>
           getRecentJobs h limit = take (nat limit) S) \<and>
      length (getRecentJobs h limit) = min (nat limit) (Map_size h) \<and>
      ordered_desc (getRecentJobs h limit)) \<and>
   (mset (Map_values h) = {#a, b, c, d#} \<and>
    startedAt a = Some T1 \<and> startedAt b = Some T2 \<and> startedAt c = Some T3 \<and>
    startedAt d = Some T4 \<and> T1 < T2 \<and> T2 < T3 \<and> T3 < T4 \<longrightarrow>
      getRecentJobs h 3 = [d, c, b])"
proof -
  let ?S = "sort_js compare_startedAt (Map_values h)"
  have gen: "(\<exists>S. mset S = mset (Map_values h) \<and> ordered_desc S \<and>
           getRecentJobs h limit = take (nat limit) S) \<and>
      length (getRecentJobs h limit) = min (nat limit) (Map_size h) \<and>
      ordered_desc (getRecentJobs h limit)"
    if nn: "0 \<le> limit" and df: "\<forall>r \<in> set (Map_values h). startedAt r \<noteq> None"
  proof -
    have eq: "getRecentJobs h limit = take (nat limit) ?S"
      using nn by (simp add: getRecentJobs_def slice0_def)
    have ord: "ordered_desc ?S" using df by (rule ordered_sort_js)
    have "ordered_desc (take (nat limit) ?S)"
      using ord unfolding ordered_desc_def by (rule sorted_wrt_take)
    moreover have "length (getRecentJobs h limit) = min (nat limit) (Map_size h)"
      using eq by (simp add: length_sort_js Map_size_def Map_values_def min.commute)
    ultimately show ?thesis using eq ord mset_sort_js[of compare_startedAt "Map_values h"]
      by auto
  qed
  have ex: "getRecentJobs h 3 = [d, c, b]"
    if m: "mset (Map_values h) = {#a, b, c, d#}"
      and t: "startedAt a = Some T1" "startedAt b = Some T2" "startedAt c = Some T3"
        "startedAt d = Some T4"
      and lt: "T1 < T2" "T2 < T3" "T3 < T4"
  proof -
    have "set (Map_values h) = set_mset (mset (Map_values h))" by simp
    then have "set (Map_values h) = {a, b, c, d}" by (auto simp: m)
    then have df: "\<forall>r \<in> set (Map_values h). startedAt r \<noteq> None" using t by auto
    have "?S = [d, c, b, a]"
      using four_sorted_unique[OF _ t lt ordered_sort_js[OF df]] m
      by (simp add: mset_sort_js)
    then show ?thesis by (simp add: getRecentJobs_def slice0_def)
  qed
  show ?thesis using gen ex by blast
qed

theorem getRecentJobs_recent_first_witness:
  "(0::int) \<le> 3 \<and>
   list_all (\<lambda>r. startedAt r \<noteq> None) (Map_values four_jobs) \<and>
   length (getRecentJobs four_jobs 3) = min (nat 3) (Map_size four_jobs) \<and>
   ordered_desc (getRecentJobs four_jobs 3) \<and>
   mset (Map_values four_jobs) =
     {#sample_record 1, sample_record 2, sample_record 3, sample_record 4#} \<and>
   getRecentJobs four_jobs 3 = [sample_record 4, sample_record 3, sample_record 2]"
proof -
  have vals: "Map_values four_jobs =
      [sample_record 2, sample_record 4, sample_record 1, sample_record 3]"
    by (simp add: four_jobs_def Map_values_def)
  have m: "mset (Map_values four_jobs) =
     {#sample_record 1, sample_record 2, sample_record 3, sample_record 4#}"
    unfolding vals by (simp add: add_mset_commute)
  have df: "\<forall>r \<in> set (Map_values four_jobs). startedAt r \<noteq> None"
    unfolding vals by (simp add: sample_record_def)
  have t: "startedAt (sample_record 1) = Some 1730000002002"
    "startedAt (sample_record 2) = Some 1730000002003"
    "startedAt (sample_record 3) = Some 1730000002004"
    "startedAt (sample_record 4) = Some 1730000002005"
    by (simp_all add: sample_record_def)
  note inst = getRecentJobs_recent_first[of 3 four_jobs "sample_record 1" "sample_record 2"
      "sample_record 3" "sample_record 4" 1730000002002 1730000002003 1730000002004
      1730000002005]
  have z: "(0::int) \<le> 3" by simp
  have gen: "length (getRecentJobs four_jobs 3) = min (nat 3) (Map_size four_jobs) \<and>
      ordered_desc (getRecentJobs four_jobs 3)"
    using conjunct1[OF inst] z df by blast
  have ex: "getRecentJobs four_jobs 3 = [sample_record 4, sample_record 3, sample_record 2]"
    using conjunct2[OF inst] m t by simp
  have df': "list_all (\<lambda>r. startedAt r \<noteq> None) (Map_values four_jobs)"
    using df by (simp only: list_all_iff)
  show ?thesis using z df' gen m ex by blast
qed

end
